theory Spec2Isabelle
  imports Main
begin

unbundle bit_operations_syntax

section \<open>Entities of py2neo.data\<close>

text \<open>
  Nodes and relationships are objects that many containers share, and both \<open>__eq__\<close>
  methods start with \<open>self is other\<close>. So an entity is a reference into a heap: \<open>N a\<close> is the
  node object with id \<open>a\<close> and \<open>R a\<close> the relationship object with id \<open>a\<close>; two references are
  the same object when they are equal. The heap gives every object its fields.

  The fields of class \<open>Entity\<close> are the base record; \<open>Node\<close> and \<open>Relationship\<close> extend it,
  as the classes do. The type \<open>'g\<close> is the external class \<open>Graph\<close>, with HOL equality
  standing for its \<open>__eq__\<close>; \<open>'v\<close> is the type of property values. The property store of
  the external class \<open>PropertyDict\<close> is a map from keys to values;
  \<open>dict(self) == dict(other)\<close> is the equality of two such maps.
\<close>

datatype error =
    ValueError_no_nodes        \<comment> \<open>\<open>ValueError("Subgraphs must contain at least one node")\<close>\<close>
  | ValueError_cannot_append   \<comment> \<open>\<open>ValueError("Cannot append walkable %r to node %r")\<close>\<close>
  | IndexError                 \<comment> \<open>a tuple index out of range\<close>

record ('g, 'v) entity =
  uuid :: string                   \<comment> \<open>\<open>__uuid__\<close>, the token drawn in \<open>Entity.__init__\<close>\<close>
  graph :: "'g option"
  identity :: "int option"
  properties :: "string \<rightharpoonup> 'v"

record ('g, 'v) node = "('g, 'v) entity" +
  labels :: "string set"          \<comment> \<open>\<open>_labels\<close>\<close>
  stale :: "string set"           \<comment> \<open>\<open>_stale\<close>\<close>

text \<open>
  \<open>type(self)\<close> of a relationship: the class \<open>Relationship\<close> itself, or the subclass that
  \<open>Relationship.type(name)\<close> finds or creates for a type name.
\<close>

datatype rel_class = Relationship_class | Subclass string

text \<open>
  The constructor stores the sequence \<open>(n[0], self, n[1])\<close>; \<open>start_n\<close> and \<open>end_n\<close> are
  its two node entries, references to node objects. The model covers relationships whose
  two endpoints are nodes.
\<close>

record ('g, 'v) relationship = "('g, 'v) entity" +
  rel_type :: rel_class
  start_n :: nat
  end_n :: nat

datatype item = N nat | R nat

fun is_node :: "item \<Rightarrow> bool" where
  "is_node (N _) = True"
| "is_node (R _) = False"

text \<open>
  The environment of a computation: the heap, and the hash functions of the Python
  runtime and of the external class \<open>Graph\<close>, which are parameters. \<open>hash_int\<close> is \<open>hash\<close> on
  an integer, \<open>hash_tuple\<close> is \<open>hash\<close> on a tuple as a function of its entries' hashes,
  \<open>hash_class\<close> is \<open>hash(type(self))\<close>, \<open>hash_database g\<close> and \<open>hash_name g\<close> are
  \<open>hash(g.database)\<close> and \<open>hash(g.name)\<close>, and \<open>graph_bool g\<close> is the truth value of a graph
  object.
\<close>

record ('g, 'v) env =
  node_at :: "nat \<Rightarrow> ('g, 'v) node"
  rel_at :: "nat \<Rightarrow> ('g, 'v) relationship"
  hash_int :: "int \<Rightarrow> int"
  hash_tuple :: "int list \<Rightarrow> int"
  hash_class :: "rel_class \<Rightarrow> int"
  hash_database :: "'g \<Rightarrow> int"
  hash_name :: "'g \<Rightarrow> int"
  graph_bool :: "'g \<Rightarrow> bool"

subsection \<open>Equality\<close>

text \<open>
  An entity is unbound while its \<open>graph\<close> or its \<open>identity\<close> is \<open>None\<close>, the class
  attributes it starts with.
\<close>

definition unbound :: "('g, 'v, 'z) entity_scheme \<Rightarrow> bool" where
  "unbound x = (graph x = None \<or> identity x = None)"

text \<open>\<open>Node.__eq__\<close>, both arguments nodes.\<close>

definition Node_eq :: "('g, 'v) env \<Rightarrow> nat \<Rightarrow> nat \<Rightarrow> bool" where
  "Node_eq E self other =
     (if self = other then True
      else if graph (node_at E self) = None \<or> graph (node_at E other) = None
            \<or> identity (node_at E self) = None \<or> identity (node_at E other) = None
        then False
      else graph (node_at E self) = graph (node_at E other)
         \<and> identity (node_at E self) = identity (node_at E other))"

text \<open>
  \<open>Relationship.__eq__\<close>, both arguments relationships. \<open>list(self.nodes) == list(other.nodes)\<close>
  compares the two endpoint lists entry by entry with the equality of nodes.
\<close>

definition Relationship_eq :: "('g, 'v) env \<Rightarrow> nat \<Rightarrow> nat \<Rightarrow> bool" where
  "Relationship_eq E self other =
     (if self = other then True
      else if graph (rel_at E self) = None \<or> graph (rel_at E other) = None
            \<or> identity (rel_at E self) = None \<or> identity (rel_at E other) = None
        then rel_type (rel_at E self) = rel_type (rel_at E other)
           \<and> Node_eq E (start_n (rel_at E self)) (start_n (rel_at E other))
           \<and> Node_eq E (end_n (rel_at E self)) (end_n (rel_at E other))
           \<and> properties (rel_at E self) = properties (rel_at E other)
      else graph (rel_at E self) = graph (rel_at E other)
         \<and> identity (rel_at E self) = identity (rel_at E other))"

text \<open>
  \<open>a == b\<close> on two entries of a sequence. A node against a relationship runs
  \<open>Node.__eq__\<close> or \<open>Relationship.__eq__\<close>, whose \<open>issubclass\<close> and \<open>type(self) is type(other)\<close>
  tests fail: the answer is \<open>False\<close>.
\<close>

fun item_eq :: "('g, 'v) env \<Rightarrow> item \<Rightarrow> item \<Rightarrow> bool" where
  "item_eq E (N a) (N b) = Node_eq E a b"
| "item_eq E (R a) (R b) = Relationship_eq E a b"
| "item_eq E _ _ = False"

subsection \<open>Hashing\<close>

text \<open>
  \<open>Node.__hash__\<close>: \<open>if self.graph and self.identity\<close> tests truth values, and an identity
  of \<open>0\<close> is false.
\<close>

definition Node_hash :: "('g, 'v) env \<Rightarrow> nat \<Rightarrow> int" where
  "Node_hash E self =
     (case (graph (node_at E self), identity (node_at E self)) of
        (Some g, Some i) \<Rightarrow>
          if graph_bool E g \<and> i \<noteq> 0
          then hash_database E g XOR hash_name E g XOR hash_int E i
          else hash_int E (int self)
      | _ \<Rightarrow> hash_int E (int self))"

text \<open>\<open>Relationship.__hash__\<close>: \<open>self.nodes\<close> is the tuple of the two endpoints.\<close>

definition Relationship_hash :: "('g, 'v) env \<Rightarrow> nat \<Rightarrow> int" where
  "Relationship_hash E self =
     hash_tuple E [Node_hash E (start_n (rel_at E self)), Node_hash E (end_n (rel_at E self))]
       XOR hash_class E (rel_type (rel_at E self))"

fun item_hash :: "('g, 'v) env \<Rightarrow> item \<Rightarrow> int" where
  "item_hash E (N a) = Node_hash E a"
| "item_hash E (R r) = Relationship_hash E r"

section \<open>Python containers\<close>

text \<open>
  Results of the model are \<open>error + 'a\<close>: \<open>Inl\<close> is the exception raised.
\<close>

definition ebind :: "error + 'a \<Rightarrow> ('a \<Rightarrow> error + 'b) \<Rightarrow> error + 'b" where
  "ebind m f = (case m of Inl e \<Rightarrow> Inl e | Inr x \<Rightarrow> f x)"

text \<open>\<open>s[i]\<close> on a tuple: a negative index counts from the end, out of range raises.\<close>

definition py_index :: "'a list \<Rightarrow> int \<Rightarrow> error + 'a" where
  "py_index s i =
     (let n = int (length s); j = (if i < 0 then i + n else i)
      in if 0 \<le> j \<and> j < n then Inr (s ! nat j) else Inl IndexError)"

text \<open>
  \<open>s[start:stop]\<close> on a tuple: an absent bound is the end of the tuple on its side, a
  negative bound counts from the end, and every bound is clamped into \<open>0..len(s)\<close>.
\<close>

definition slice_bound :: "nat \<Rightarrow> int \<Rightarrow> nat" where
  "slice_bound n b = (if b < 0 then nat (max (b + int n) 0) else min (nat b) n)"

definition py_slice :: "'a list \<Rightarrow> int option \<Rightarrow> int option \<Rightarrow> 'a list" where
  "py_slice s start stop =
     (let n = length s;
          lo = (case start of None \<Rightarrow> 0 | Some a \<Rightarrow> slice_bound n a);
          hi = (case stop of None \<Rightarrow> n | Some b \<Rightarrow> slice_bound n b)
      in take (hi - lo) (drop lo s))"

text \<open>\<open>s[0::2]\<close> and \<open>s[1::2]\<close>.\<close>

fun evens :: "'a list \<Rightarrow> 'a list" where
  "evens [] = []"
| "evens [x] = [x]"
| "evens (x # y # xs) = x # evens xs"

fun odds :: "'a list \<Rightarrow> 'a list" where
  "odds [] = []"
| "odds [x] = []"
| "odds (x # y # xs) = y # odds xs"

text \<open>
  Python's built-in \<open>set\<close> and \<open>frozenset\<close> are modelled by what they are documented to
  do, over the equality of their members: a set is the list of its members in the order
  they were added, a member being added only when the set holds no member equal to it;
  the order of the list stands for the order in which the set is iterated.
  The test \<open>eq y x\<close> compares a member \<open>y\<close> of the set with the probe \<open>x\<close>; for entities it
  is \<open>same\<close> below: equal hashes, then \<open>==\<close>.
\<close>

definition py_in :: "('a \<Rightarrow> 'a \<Rightarrow> bool) \<Rightarrow> 'a \<Rightarrow> 'a list \<Rightarrow> bool" where
  "py_in eq x s = list_ex (\<lambda>y. eq y x) s"

definition py_add :: "('a \<Rightarrow> 'a \<Rightarrow> bool) \<Rightarrow> 'a list \<Rightarrow> 'a \<Rightarrow> 'a list" where
  "py_add eq s x = (if py_in eq x s then s else s @ [x])"

definition py_set :: "('a \<Rightarrow> 'a \<Rightarrow> bool) \<Rightarrow> 'a list \<Rightarrow> 'a list" where
  "py_set eq xs = foldl (py_add eq) [] xs"

definition py_union :: "('a \<Rightarrow> 'a \<Rightarrow> bool) \<Rightarrow> 'a list \<Rightarrow> 'a list \<Rightarrow> 'a list" where
  "py_union eq a b = foldl (py_add eq) a b"

definition py_intersection :: "('a \<Rightarrow> 'a \<Rightarrow> bool) \<Rightarrow> 'a list \<Rightarrow> 'a list \<Rightarrow> 'a list" where
  "py_intersection eq a b =
     (if length a < length b then filter (\<lambda>x. py_in eq x b) a else filter (\<lambda>x. py_in eq x a) b)"

definition py_difference :: "('a \<Rightarrow> 'a \<Rightarrow> bool) \<Rightarrow> 'a list \<Rightarrow> 'a list \<Rightarrow> 'a list" where
  "py_difference eq a b = filter (\<lambda>x. \<not> py_in eq x b) a"

definition py_symmetric_difference :: "('a \<Rightarrow> 'a \<Rightarrow> bool) \<Rightarrow> 'a list \<Rightarrow> 'a list \<Rightarrow> 'a list" where
  "py_symmetric_difference eq a b = py_difference eq a b @ py_difference eq b a"

text \<open>\<open>a == b\<close> on two sets: as many members, and every member of \<open>a\<close> is in \<open>b\<close>.\<close>

definition py_set_eq :: "('a \<Rightarrow> 'a \<Rightarrow> bool) \<Rightarrow> 'a list \<Rightarrow> 'a list \<Rightarrow> bool" where
  "py_set_eq eq a b = (length a = length b \<and> list_all (\<lambda>x. py_in eq x b) a)"

definition same :: "('g, 'v) env \<Rightarrow> item \<Rightarrow> item \<Rightarrow> bool" where
  "same E y x = (item_hash E y = item_hash E x \<and> item_eq E y x)"

section \<open>Subgraph\<close>

text \<open>The two private frozensets \<open>__nodes\<close> and \<open>__relationships\<close>.\<close>

record subgraph =
  s_nodes :: "item list"
  s_relationships :: "item list"

text \<open>
  Every entity is a \<open>Walkable\<close> over its own sequence: \<open>(self,)\<close> for a node,
  \<open>(n[0], self, n[1])\<close> for a relationship; \<open>r.nodes\<close> is that sequence's \<open>[0::2]\<close>.
\<close>

fun item_sequence :: "('g, 'v) env \<Rightarrow> item \<Rightarrow> item list" where
  "item_sequence E (N n) = [N n]"
| "item_sequence E (R r) = [N (start_n (rel_at E r)), R r, N (end_n (rel_at E r))]"

definition item_nodes :: "('g, 'v) env \<Rightarrow> item \<Rightarrow> item list" where
  "item_nodes E r = evens (item_sequence E r)"

text \<open>The node set of \<open>Subgraph.__init__\<close> after the endpoints are united in.\<close>

definition closed_nodes :: "('g, 'v) env \<Rightarrow> item list \<Rightarrow> item list \<Rightarrow> item list" where
  "closed_nodes E nodes relationships =
     py_union (same E) (py_set (same E) nodes)
       (py_set (same E) (concat (map (item_nodes E) (py_set (same E) relationships))))"

text \<open>\<open>Subgraph.__init__\<close>.\<close>

definition Subgraph ::
  "('g, 'v) env \<Rightarrow> item list \<Rightarrow> item list \<Rightarrow> error + subgraph" where
  "Subgraph E nodes relationships =
     (let ns = closed_nodes E nodes relationships
      in if ns = [] then Inl ValueError_no_nodes
         else Inr \<lparr>s_nodes = ns, s_relationships = py_set (same E) relationships\<rparr>)"

text \<open>\<open>__graph_order__\<close> and \<open>__graph_size__\<close>.\<close>

definition graph_order :: "'z subgraph_scheme \<Rightarrow> nat" where
  "graph_order s = length (s_nodes s)"

definition graph_size :: "'z subgraph_scheme \<Rightarrow> nat" where
  "graph_size s = length (s_relationships s)"

text \<open>
  \<open>Subgraph.__eq__\<close> on two objects of class \<open>Subgraph\<close> itself, whose \<open>nodes\<close> and
  \<open>relationships\<close> are the two frozensets.
\<close>

definition Subgraph_eq :: "('g, 'v) env \<Rightarrow> subgraph \<Rightarrow> subgraph \<Rightarrow> bool" where
  "Subgraph_eq E self other =
     (graph_order self = graph_order other \<and> graph_size self = graph_size other
      \<and> py_set_eq (same E) (s_nodes self) (s_nodes other)
      \<and> py_set_eq (same E) (s_relationships self) (s_relationships other))"

section \<open>Walkable\<close>

record walkable = "subgraph" +
  sequence :: "item list"

text \<open>\<open>Walkable.__init__\<close>.\<close>

definition Walkable :: "('g, 'v) env \<Rightarrow> item list \<Rightarrow> error + walkable" where
  "Walkable E iterable =
     ebind (Subgraph E (evens iterable) (odds iterable))
       (\<lambda>g. Inr \<lparr>s_nodes = s_nodes g, s_relationships = s_relationships g, sequence = iterable\<rparr>)"

text \<open>The walkable that \<open>Walkable.__init__\<close> leaves when it does not raise.\<close>

definition walkable_of :: "('g, 'v) env \<Rightarrow> item list \<Rightarrow> walkable" where
  "walkable_of E xs =
     \<lparr>s_nodes = closed_nodes E (evens xs) (odds xs), s_relationships = py_set (same E) (odds xs),
      sequence = xs\<rparr>"

definition start_node :: "walkable \<Rightarrow> error + item" where
  "start_node w = py_index (sequence w) 0"

definition end_node :: "walkable \<Rightarrow> error + item" where
  "end_node w = py_index (sequence w) (- 1)"

text \<open>\<open>Walkable.__len__\<close>; \<open>//\<close> rounds down, as \<open>div\<close> on \<open>int\<close> does.\<close>

definition Walkable_len :: "walkable \<Rightarrow> int" where
  "Walkable_len w = (int (length (sequence w)) - 1) div 2"

text \<open>
  The operands of the set operators are graph structures: an object of class \<open>Subgraph\<close>
  itself, or a \<open>Walkable\<close> (a path or an entity), whose properties \<open>nodes\<close> and
  \<open>relationships\<close> are the tuples \<open>sequence[0::2]\<close> and \<open>sequence[1::2]\<close>.
\<close>

datatype graph_structure = Plain "subgraph" | Walk "walkable"

fun nodes_of :: "graph_structure \<Rightarrow> item list" where
  "nodes_of (Plain s) = s_nodes s"
| "nodes_of (Walk w) = evens (sequence w)"

fun relationships_of :: "graph_structure \<Rightarrow> item list" where
  "relationships_of (Plain s) = s_relationships s"
| "relationships_of (Walk w) = odds (sequence w)"

text \<open>\<open>__or__\<close>, \<open>__and__\<close>, \<open>__sub__\<close> and \<open>__xor__\<close>, with their two arguments of the constructor.\<close>

definition or_args :: "('g, 'v) env \<Rightarrow> graph_structure \<Rightarrow> graph_structure \<Rightarrow> item list \<times> item list" where
  "or_args E self other =
     (py_union (same E) (py_set (same E) (nodes_of self)) (py_set (same E) (nodes_of other)),
      py_union (same E) (py_set (same E) (relationships_of self)) (py_set (same E) (relationships_of other)))"

definition and_args :: "('g, 'v) env \<Rightarrow> graph_structure \<Rightarrow> graph_structure \<Rightarrow> item list \<times> item list" where
  "and_args E self other =
     (py_intersection (same E) (py_set (same E) (nodes_of self)) (py_set (same E) (nodes_of other)),
      py_intersection (same E) (py_set (same E) (relationships_of self)) (py_set (same E) (relationships_of other)))"

definition sub_args :: "('g, 'v) env \<Rightarrow> graph_structure \<Rightarrow> graph_structure \<Rightarrow> item list \<times> item list" where
  "sub_args E self other =
     (let r = py_difference (same E) (py_set (same E) (relationships_of self)) (py_set (same E) (relationships_of other));
          n = py_union (same E)
                (py_difference (same E) (py_set (same E) (nodes_of self)) (py_set (same E) (nodes_of other)))
                (foldl (py_union (same E)) [] (map (\<lambda>rel. py_set (same E) (item_nodes E rel)) r))
      in (n, r))"

definition xor_args :: "('g, 'v) env \<Rightarrow> graph_structure \<Rightarrow> graph_structure \<Rightarrow> item list \<times> item list" where
  "xor_args E self other =
     (let r = py_symmetric_difference (same E) (py_set (same E) (relationships_of self)) (py_set (same E) (relationships_of other));
          n = py_union (same E)
                (py_symmetric_difference (same E) (py_set (same E) (nodes_of self)) (py_set (same E) (nodes_of other)))
                (foldl (py_union (same E)) [] (map (\<lambda>rel. py_set (same E) (item_nodes E rel)) r))
      in (n, r))"

definition Subgraph_or :: "('g, 'v) env \<Rightarrow> graph_structure \<Rightarrow> graph_structure \<Rightarrow> error + subgraph" where
  "Subgraph_or E self other = (case or_args E self other of (n, r) \<Rightarrow> Subgraph E n r)"

definition Subgraph_and :: "('g, 'v) env \<Rightarrow> graph_structure \<Rightarrow> graph_structure \<Rightarrow> error + subgraph" where
  "Subgraph_and E self other = (case and_args E self other of (n, r) \<Rightarrow> Subgraph E n r)"

definition Subgraph_sub :: "('g, 'v) env \<Rightarrow> graph_structure \<Rightarrow> graph_structure \<Rightarrow> error + subgraph" where
  "Subgraph_sub E self other = (case sub_args E self other of (n, r) \<Rightarrow> Subgraph E n r)"

definition Subgraph_xor :: "('g, 'v) env \<Rightarrow> graph_structure \<Rightarrow> graph_structure \<Rightarrow> error + subgraph" where
  "Subgraph_xor E self other = (case xor_args E self other of (n, r) \<Rightarrow> Subgraph E n r)"

text \<open>
  The closure property of a subgraph: each endpoint of each of its relationships is in
  its node set, as Python's \<open>in\<close> tests it.
\<close>

definition closed :: "('g, 'v) env \<Rightarrow> subgraph \<Rightarrow> bool" where
  "closed E g =
     list_all (\<lambda>r. list_all (\<lambda>n. py_in (same E) n (s_nodes g)) (item_nodes E r)) (s_relationships g)"

text \<open>
  What a construction from the arguments \<open>args\<close> (nodes, relationships) must come to: the
  \<open>ValueError\<close> when the node set after closure is empty, and otherwise a subgraph with a
  non-empty, closed node set.
\<close>

definition Subgraph_ok :: "('g, 'v) env \<Rightarrow> item list \<times> item list \<Rightarrow> error + subgraph \<Rightarrow> bool" where
  "Subgraph_ok E args result =
     (case result of
        Inl e \<Rightarrow> e = ValueError_no_nodes \<and> closed_nodes E (fst args) (snd args) = []
      | Inr g \<Rightarrow> closed_nodes E (fst args) (snd args) \<noteq> [] \<and> s_nodes g \<noteq> [] \<and> closed E g)"

text \<open>
  The subgraph that a walkable is: the two frozensets that \<open>Subgraph.__init__\<close> set on it.
\<close>

definition subgraph_view :: "walkable \<Rightarrow> subgraph" where
  "subgraph_view w = \<lparr>s_nodes = s_nodes w, s_relationships = s_relationships w\<rparr>"

text \<open>
  Equality as the sets see it is transitive on the entities \<open>S\<close>. Among nodes it always
  is; among relationships it can fail when bound and unbound ones of one shape are mixed,
  since an unbound relationship equals every relationship of its shape and two bound ones
  with different identities are unequal.
\<close>

definition transitive_on :: "('g, 'v) env \<Rightarrow> item set \<Rightarrow> bool" where
  "transitive_on E S = (\<forall>x\<in>S. \<forall>y\<in>S. \<forall>z\<in>S. same E x y \<longrightarrow> same E y z \<longrightarrow> same E x z)"

section \<open>walk\<close>

text \<open>
  The inner loop of \<open>walk\<close>: \<open>for i, entity in enumerate(entities): if i > 0: yield entity\<close>.
\<close>

definition skip_first :: "'a list \<Rightarrow> 'a list" where
  "skip_first entities = map snd (filter (\<lambda>(i, entity). i > 0) (enumerate 0 entities))"

text \<open>
  The loop \<open>for walkable in walkables[1:]\<close>, with the running \<open>end_node\<close> as its state
  (\<open>e\<close>); the result is what the loop yields. \<open>walk\<close> is a generator: it is modelled by the
  list of everything it yields, or by the exception that ends it.
\<close>

fun walk_loop :: "('g, 'v) env \<Rightarrow> item \<Rightarrow> walkable list \<Rightarrow> error + item list" where
  "walk_loop E e [] = Inr []"
| "walk_loop E e (walkable # rest) =
     ebind (start_node walkable) (\<lambda>s.
       if item_eq E e s then
         ebind (end_node walkable) (\<lambda>e'.
         ebind (walk_loop E e' rest) (\<lambda>out.
           Inr (skip_first (sequence walkable) @ out)))
       else
         ebind (end_node walkable) (\<lambda>t.
           if item_eq E e t then
             ebind (start_node walkable) (\<lambda>e'.
             ebind (walk_loop E e' rest) (\<lambda>out.
               Inr (skip_first (rev (sequence walkable)) @ out)))
           else Inl ValueError_cannot_append))"

definition walk :: "('g, 'v) env \<Rightarrow> walkable list \<Rightarrow> error + item list" where
  "walk E walkables =
     (case walkables of
        [] \<Rightarrow> Inr []
      | walkable # rest \<Rightarrow>
          ebind (end_node walkable) (\<lambda>e.
          ebind (walk_loop E e rest) (\<lambda>out.
            Inr (sequence walkable @ out))))"

text \<open>
  The traversal as the specification words it: seed with the first walkable's sequence;
  for each further walkable compare its ends with the running end, append its sequence
  forward or reversed without its first element, or fail.
\<close>

definition spec_step :: "('g, 'v) env \<Rightarrow> item list \<times> item \<Rightarrow> walkable \<Rightarrow> error + item list \<times> item" where
  "spec_step E st w =
     (case st of (out, running_end) \<Rightarrow>
        if item_eq E running_end (hd (sequence w)) then Inr (out @ tl (sequence w), last (sequence w))
        else if item_eq E running_end (last (sequence w)) then Inr (out @ tl (rev (sequence w)), hd (sequence w))
        else Inl ValueError_cannot_append)"

fun spec_steps :: "('g, 'v) env \<Rightarrow> item list \<times> item \<Rightarrow> walkable list \<Rightarrow> error + item list \<times> item" where
  "spec_steps E st [] = Inr st"
| "spec_steps E st (w # ws) = ebind (spec_step E st w) (\<lambda>st'. spec_steps E st' ws)"

definition spec_walk :: "('g, 'v) env \<Rightarrow> walkable list \<Rightarrow> error + item list" where
  "spec_walk E ws =
     ebind (spec_steps E (sequence (hd ws), last (sequence (hd ws))) (tl ws)) (\<lambda>st. Inr (fst st))"

section \<open>Walkable equality and indexing\<close>

text \<open>\<open>a == b\<close> on two tuples of entities.\<close>

definition tuple_eq :: "('g, 'v) env \<Rightarrow> item list \<Rightarrow> item list \<Rightarrow> bool" where
  "tuple_eq E a b = list_all2 (item_eq E) a b"

text \<open>\<open>Walkable.__eq__\<close>, both arguments walkables.\<close>

definition Walkable_eq :: "('g, 'v) env \<Rightarrow> walkable \<Rightarrow> walkable \<Rightarrow> error + bool" where
  "Walkable_eq E self other =
     ebind (walk E [other]) (\<lambda>other_walk.
     ebind (walk E [self]) (\<lambda>self_walk.
       Inr (tuple_eq E self_walk other_walk)))"

text \<open>
  \<open>Walkable.__getitem__\<close>. The argument is an integer or a slice, of which the method
  reads \<open>start\<close> and \<open>stop\<close>; the result is an entry of the sequence or a new walkable.
\<close>

datatype index = Index int | Slice "int option" "int option"

datatype got = Entry "item" | Part "walkable"

text \<open>\<open>if start < 0: start += len(self)\<close>, and the same for \<open>stop\<close>.\<close>

definition from_end :: "int \<Rightarrow> int \<Rightarrow> int" where
  "from_end n a = (if a < 0 then a + n else a)"

definition Walkable_getitem :: "('g, 'v) env \<Rightarrow> walkable \<Rightarrow> index \<Rightarrow> error + got" where
  "Walkable_getitem E self index =
     (case index of
        Slice start stop \<Rightarrow>
          (let start' = map_option (\<lambda>a. 2 * from_end (Walkable_len self) a) start;
               stop' = map_option (\<lambda>b. 2 * from_end (Walkable_len self) b + 1) stop
           in ebind (Walkable E (py_slice (sequence self) start' stop')) (\<lambda>w. Inr (Part w)))
      | Index i \<Rightarrow>
          if i < 0 then ebind (py_index (sequence self) (2 * i)) (\<lambda>x. Inr (Entry x))
          else ebind (py_index (sequence self) (2 * i + 1)) (\<lambda>x. Inr (Entry x)))"

section \<open>Lazy refresh of a node\<close>

text \<open>
  \<open>self.graph.pull(self)\<close> is a call into the external class \<open>Graph\<close>; it may change the
  heap. It is the parameter \<open>pull\<close>, a function of the graph, the node and the environment
  that returns the environment as the call leaves it. The state of a method is the
  environment together with the log of the calls of \<open>pull\<close>, each with its graph and its
  node, in order.
\<close>

record ('g, 'v) world =
  heap :: "('g, 'v) env"
  pulls :: "('g \<times> nat) list"

definition graph_pull ::
  "('g \<Rightarrow> nat \<Rightarrow> ('g, 'v) env \<Rightarrow> ('g, 'v) env) \<Rightarrow> 'g \<Rightarrow> nat \<Rightarrow> ('g, 'v) world \<Rightarrow> ('g, 'v) world" where
  "graph_pull pull g self w = \<lparr>heap = pull g self (heap w), pulls = pulls w @ [(g, self)]\<rparr>"

text \<open>The guard shared by \<open>__getitem__\<close> and \<open>__ensure_labels\<close>, for the flag \<open>flag\<close>.\<close>

definition pull_if_stale ::
  "('g \<Rightarrow> nat \<Rightarrow> ('g, 'v) env \<Rightarrow> ('g, 'v) env) \<Rightarrow> string \<Rightarrow> nat \<Rightarrow> ('g, 'v) world \<Rightarrow> ('g, 'v) world" where
  "pull_if_stale pull flag self w =
     (case (graph (node_at (heap w) self), identity (node_at (heap w) self)) of
        (Some g, Some i) \<Rightarrow> if flag \<in> stale (node_at (heap w) self) then graph_pull pull g self w else w
      | _ \<Rightarrow> w)"

definition ensure_labels ::
  "('g \<Rightarrow> nat \<Rightarrow> ('g, 'v) env \<Rightarrow> ('g, 'v) env) \<Rightarrow> nat \<Rightarrow> ('g, 'v) world \<Rightarrow> ('g, 'v) world" where
  "ensure_labels pull self w = pull_if_stale pull ''labels'' self w"

text \<open>\<open>self._labels\<close> is replaced by \<open>f\<close> of it.\<close>

definition set_labels :: "nat \<Rightarrow> (string set \<Rightarrow> string set) \<Rightarrow> ('g, 'v) world \<Rightarrow> ('g, 'v) world" where
  "set_labels self f w =
     w\<lparr>heap := (heap w)\<lparr>node_at := (node_at (heap w))
          (self := (node_at (heap w) self)\<lparr>labels := f (labels (node_at (heap w) self))\<rparr>)\<rparr>\<rparr>"

text \<open>Each method returns its value, if it has one, and the state it leaves.\<close>

definition Node_getitem ::
  "('g \<Rightarrow> nat \<Rightarrow> ('g, 'v) env \<Rightarrow> ('g, 'v) env) \<Rightarrow> nat \<Rightarrow> string \<Rightarrow> ('g, 'v) world \<Rightarrow> 'v option \<times> ('g, 'v) world" where
  "Node_getitem pull self item w =
     (let w' = pull_if_stale pull ''properties'' self w in (properties (node_at (heap w') self) item, w'))"

definition Node_labels ::
  "('g \<Rightarrow> nat \<Rightarrow> ('g, 'v) env \<Rightarrow> ('g, 'v) env) \<Rightarrow> nat \<Rightarrow> ('g, 'v) world \<Rightarrow> string set \<times> ('g, 'v) world" where
  "Node_labels pull self w = (let w' = ensure_labels pull self w in (labels (node_at (heap w') self), w'))"

definition has_label ::
  "('g \<Rightarrow> nat \<Rightarrow> ('g, 'v) env \<Rightarrow> ('g, 'v) env) \<Rightarrow> nat \<Rightarrow> string \<Rightarrow> ('g, 'v) world \<Rightarrow> bool \<times> ('g, 'v) world" where
  "has_label pull self label w =
     (let w' = ensure_labels pull self w in (label \<in> labels (node_at (heap w') self), w'))"

definition add_label ::
  "('g \<Rightarrow> nat \<Rightarrow> ('g, 'v) env \<Rightarrow> ('g, 'v) env) \<Rightarrow> nat \<Rightarrow> string \<Rightarrow> ('g, 'v) world \<Rightarrow> ('g, 'v) world" where
  "add_label pull self label w = set_labels self (insert label) (ensure_labels pull self w)"

definition remove_label ::
  "('g \<Rightarrow> nat \<Rightarrow> ('g, 'v) env \<Rightarrow> ('g, 'v) env) \<Rightarrow> nat \<Rightarrow> string \<Rightarrow> ('g, 'v) world \<Rightarrow> ('g, 'v) world" where
  "remove_label pull self label w = set_labels self (\<lambda>ls. ls - {label}) (ensure_labels pull self w)"

definition clear_labels ::
  "('g \<Rightarrow> nat \<Rightarrow> ('g, 'v) env \<Rightarrow> ('g, 'v) env) \<Rightarrow> nat \<Rightarrow> ('g, 'v) world \<Rightarrow> ('g, 'v) world" where
  "clear_labels pull self w = set_labels self (\<lambda>ls. {}) (ensure_labels pull self w)"

definition update_labels ::
  "('g \<Rightarrow> nat \<Rightarrow> ('g, 'v) env \<Rightarrow> ('g, 'v) env) \<Rightarrow> nat \<Rightarrow> string list \<Rightarrow> ('g, 'v) world \<Rightarrow> ('g, 'v) world" where
  "update_labels pull self ls w = set_labels self (\<lambda>old. old \<union> set ls) (ensure_labels pull self w)"

section \<open>A sample heap\<close>

text \<open>
  The heap of the concrete instances below, with graphs that are natural numbers. Nodes
  \<open>2\<close>, \<open>3\<close> and \<open>4\<close> are unbound. Nodes \<open>10\<close> and \<open>11\<close> are two objects bound to graph \<open>7\<close>
  with identity \<open>42\<close>, with different labels and properties, and the labels and
  properties of node \<open>10\<close> are stale; nodes \<open>20\<close> and \<open>21\<close> are two objects bound to graph \<open>7\<close> with identity \<open>0\<close>.
  The relationships are of type \<open>KNOWS\<close>: \<open>12\<close> and \<open>13\<close> are two unbound objects from node
  \<open>2\<close> to node \<open>3\<close>, \<open>14\<close> runs from node \<open>3\<close> to node \<open>4\<close>, and \<open>15\<close>, \<open>16\<close> and \<open>17\<close> are loops on
  node \<open>2\<close>, of which \<open>15\<close> and \<open>17\<close> are bound to graph \<open>7\<close> with identities \<open>5\<close> and \<open>6\<close>.
\<close>

definition sample_node :: "nat \<Rightarrow> (nat, string) node" where
  "sample_node a =
     \<lparr>uuid = (if a = 2 then ''e4b1c0de-0000-4000-8000-00000abcdef0'' else ''9f8b2c4a-1111-4222-8333-44444fedcba9''),
      graph = (if a \<in> {10, 11, 20, 21} then Some 7 else None),
      identity = (if a \<in> {10, 11} then Some 42 else if a \<in> {20, 21} then Some 0 else None),
      properties = (if a = 11 then [''name'' \<mapsto> ''Alice''] else Map.empty),
      labels = (if a = 11 then {''Person''} else {}),
      stale = (if a = 10 then {''labels'', ''properties''} else {})\<rparr>"

definition sample_rel :: "nat \<Rightarrow> (nat, string) relationship" where
  "sample_rel a =
     \<lparr>uuid = (if a = 12 then ''7c9e6679-7425-40de-944b-e07fcafabcde'' else ''0a1b2c3d-5555-4666-8777-88888bcdefa1''),
      graph = (if a \<in> {15, 17} then Some 7 else None),
      identity = (if a = 15 then Some 5 else if a = 17 then Some 6 else None),
      properties = Map.empty,
      rel_type = Subclass ''KNOWS'',
      start_n = (if a = 14 then 3 else 2),
      end_n = (if a = 14 then 4 else if a \<in> {15, 16, 17} then 2 else 3)\<rparr>"

definition sample_env :: "(nat, string) env" where
  "sample_env =
     \<lparr>node_at = sample_node, rel_at = sample_rel,
      hash_int = (\<lambda>i. i), hash_tuple = (\<lambda>hs. foldl (\<lambda>a h. 31 * a + h) 7 hs),
      hash_class = (\<lambda>c. case c of Relationship_class \<Rightarrow> 1000 | Subclass name \<Rightarrow> 2000 + int (length name)),
      hash_database = (\<lambda>g. int g), hash_name = (\<lambda>g. 5), graph_bool = (\<lambda>g. True)\<rparr>"

text \<open>
  Two graphs' \<open>pull\<close>: one that refreshes the node's labels and properties and clears its
  stale flags, and one that finds nothing to refresh and leaves the heap as it is.
\<close>

definition refreshing_pull :: "nat \<Rightarrow> nat \<Rightarrow> (nat, string) env \<Rightarrow> (nat, string) env" where
  "refreshing_pull g a E =
     E\<lparr>node_at := (node_at E)(a := (node_at E a)
          \<lparr>properties := [''name'' \<mapsto> ''Alice''], labels := {''Person''}, stale := {}\<rparr>)\<rparr>"

definition idle_pull :: "nat \<Rightarrow> nat \<Rightarrow> (nat, string) env \<Rightarrow> (nat, string) env" where
  "idle_pull g a E = E"

section \<open>Properties of entity equality\<close>

lemma Node_eq_refl: "Node_eq E a a"
  by (simp add: Node_eq_def)

lemma Relationship_eq_refl: "Relationship_eq E r r"
  by (simp add: Relationship_eq_def)

lemma item_eq_refl: "item_eq E x x"
  by (cases x) (simp_all add: Node_eq_refl Relationship_eq_refl)

section \<open>Properties of the Python sets\<close>

lemma py_in_iff: "py_in eq x s \<longleftrightarrow> (\<exists>y\<in>set s. eq y x)"
  by (simp add: py_in_def list_ex_iff)

lemma py_add_old: "py_in eq x s \<Longrightarrow> py_add eq s x = s"
  by (simp add: py_add_def)

lemma py_add_new: "\<not> py_in eq x s \<Longrightarrow> py_add eq s x = s @ [x]"
  by (simp add: py_add_def)

lemma py_add_prefix: "\<exists>t. py_add eq s x = s @ t"
  by (cases "py_in eq x s") (simp_all add: py_add_old py_add_new)

lemma foldl_py_add_prefix: "\<exists>t. foldl (py_add eq) s xs = s @ t"
proof (induction xs arbitrary: s)
  case Nil
  then show ?case by simp
next
  case (Cons x xs)
  obtain t where t: "foldl (py_add eq) (py_add eq s x) xs = py_add eq s x @ t"
    using Cons.IH [of "py_add eq s x"] by blast
  obtain u where u: "py_add eq s x = s @ u"
    using py_add_prefix [of eq s x] by blast
  show ?case using t u by simp
qed

lemma py_add_not_Nil: "py_add eq s x \<noteq> []"
  by (cases "py_in eq x s") (auto simp: py_add_old py_add_new py_in_iff)

lemma foldl_py_add_Nil_iff: "foldl (py_add eq) s xs = [] \<longleftrightarrow> s = [] \<and> xs = []"
proof (cases xs)
  case Nil
  then show ?thesis by simp
next
  case (Cons x xs')
  obtain t where "foldl (py_add eq) (py_add eq s x) xs' = py_add eq s x @ t"
    using foldl_py_add_prefix [of eq "py_add eq s x" xs'] by blast
  then show ?thesis using Cons py_add_not_Nil [of eq s x] by simp
qed

lemma py_in_foldl_keep: "py_in eq x s \<Longrightarrow> py_in eq x (foldl (py_add eq) s xs)"
proof -
  obtain t where "foldl (py_add eq) s xs = s @ t"
    using foldl_py_add_prefix [of eq s xs] by blast
  then show "py_in eq x s \<Longrightarrow> py_in eq x (foldl (py_add eq) s xs)"
    by (auto simp: py_in_iff)
qed

lemma py_in_py_add: "eq x x \<Longrightarrow> py_in eq x (py_add eq s x)"
  by (cases "py_in eq x s") (auto simp: py_add_old py_add_new py_in_iff)

lemma py_in_foldl_new: "x \<in> set xs \<Longrightarrow> eq x x \<Longrightarrow> py_in eq x (foldl (py_add eq) s xs)"
proof (induction xs arbitrary: s)
  case Nil
  then show ?case by simp
next
  case (Cons y ys)
  show ?case
  proof (cases "x = y")
    case True
    with Cons.prems have "py_in eq x (py_add eq s y)" by (simp add: py_in_py_add)
    then show ?thesis by (simp add: py_in_foldl_keep)
  next
    case False
    with Cons show ?thesis by simp
  qed
qed

lemma set_py_add: "set (py_add eq s x) \<subseteq> insert x (set s)"
  by (cases "py_in eq x s") (auto simp: py_add_old py_add_new)

lemma set_foldl_py_add: "set (foldl (py_add eq) s xs) \<subseteq> set s \<union> set xs"
proof (induction xs arbitrary: s)
  case Nil
  then show ?case by simp
next
  case (Cons x xs)
  have "set (foldl (py_add eq) (py_add eq s x) xs) \<subseteq> set (py_add eq s x) \<union> set xs"
    by (rule Cons.IH)
  then show ?case using set_py_add [of eq s x] by auto
qed

lemma same_refl: "same E x x"
  by (simp add: same_def item_eq_refl)

lemma py_set_Nil_iff: "py_set eq xs = [] \<longleftrightarrow> xs = []"
  by (simp add: py_set_def foldl_py_add_Nil_iff)

lemma py_union_Nil_iff: "py_union eq a b = [] \<longleftrightarrow> a = [] \<and> b = []"
  by (simp add: py_union_def foldl_py_add_Nil_iff)

lemma py_difference_self: "(\<And>x. eq x x) \<Longrightarrow> py_difference eq s s = []"
  by (auto simp: py_difference_def py_in_iff filter_empty_conv)

lemma py_in_py_union_right:
  assumes "x \<in> set b" and "eq x x"
  shows "py_in eq x (py_union eq a b)"
  unfolding py_union_def using assms by (rule py_in_foldl_new)

lemma py_set_member: "x \<in> set xs \<Longrightarrow> eq x x \<Longrightarrow> py_in eq x (py_set eq xs)"
  unfolding py_set_def by (rule py_in_foldl_new)


lemma Node_eq_trans: "Node_eq E a b \<Longrightarrow> Node_eq E b c \<Longrightarrow> Node_eq E a c"
  by (auto simp: Node_eq_def split: if_splits)

lemma Node_eq_sym: "Node_eq E a b \<Longrightarrow> Node_eq E b a"
  by (auto simp: Node_eq_def split: if_splits)

lemma same_trans_node: "same E z y \<Longrightarrow> same E y (N c) \<Longrightarrow> same E z (N c)"
  by (cases z; cases y) (auto simp: same_def dest: Node_eq_trans)

lemma item_nodes_are_nodes: "n \<in> set (item_nodes E r) \<Longrightarrow> \<exists>a. n = N a"
  by (cases r) (auto simp: item_nodes_def)

lemma closed_nodes_closed:
  assumes "r \<in> set (py_set (same E) rs)" and "n \<in> set (item_nodes E r)"
  shows "py_in (same E) n (closed_nodes E ns rs)"
proof -
  obtain c where c: "n = N c"
    using assms(2) item_nodes_are_nodes by blast
  have "n \<in> set (concat (map (item_nodes E) (py_set (same E) rs)))"
    using assms by auto
  then have "py_in (same E) n (py_set (same E) (concat (map (item_nodes E) (py_set (same E) rs))))"
    by (rule py_set_member) (rule same_refl)
  then obtain y where y: "y \<in> set (py_set (same E) (concat (map (item_nodes E) (py_set (same E) rs))))"
    and yn: "same E y n"
    by (auto simp: py_in_iff)
  have "py_in (same E) y (closed_nodes E ns rs)"
    unfolding closed_nodes_def using y by (rule py_in_py_union_right) (rule same_refl)
  then obtain z where z: "z \<in> set (closed_nodes E ns rs)" and zy: "same E z y"
    by (auto simp: py_in_iff)
  have "same E z n"
    using zy yn unfolding c by (rule same_trans_node)
  then show ?thesis using z by (auto simp: py_in_iff)
qed

lemma Subgraph_meets_ok: "Subgraph_ok E (ns, rs) (Subgraph E ns rs)"
proof (cases "closed_nodes E ns rs = []")
  case True
  then show ?thesis by (simp add: Subgraph_ok_def Subgraph_def)
next
  case False
  have "closed E \<lparr>s_nodes = closed_nodes E ns rs, s_relationships = py_set (same E) rs\<rparr>"
    by (simp add: closed_def list_all_iff closed_nodes_closed)
  with False show ?thesis by (simp add: Subgraph_ok_def Subgraph_def)
qed

section \<open>Evaluating the sample heap\<close>

lemmas sample_simps = sample_env_def sample_node_def sample_rel_def

lemmas set_simps = py_set_def py_union_def py_add_def py_in_def same_def
  Node_hash_def Relationship_hash_def Node_eq_def Relationship_eq_def

lemma sample_Subgraph_rel:
  "Subgraph sample_env [] [R 12] = Inr \<lparr>s_nodes = [N 2, N 3], s_relationships = [R 12]\<rparr>"
  by (simp add: Subgraph_def closed_nodes_def item_nodes_def set_simps sample_simps)

lemma sample_Subgraph_two:
  "Subgraph sample_env [N 2, N 3] [] = Inr \<lparr>s_nodes = [N 2, N 3], s_relationships = []\<rparr>"
  by (simp add: Subgraph_def closed_nodes_def item_nodes_def set_simps sample_simps)

lemma sample_and:
  "Subgraph_and sample_env (Plain \<lparr>s_nodes = [N 2], s_relationships = []\<rparr>)
     (Plain \<lparr>s_nodes = [N 3], s_relationships = []\<rparr>) = Inl ValueError_no_nodes"
  by (simp add: Subgraph_and_def and_args_def py_intersection_def Subgraph_def closed_nodes_def
      item_nodes_def set_simps sample_simps)

lemma sample_node_fields:
  "graph (node_at sample_env 2) = None" "graph (node_at sample_env 3) = None"
  "graph (node_at sample_env 10) = Some 7" "graph (node_at sample_env 11) = Some 7"
  "identity (node_at sample_env 10) = Some 42" "identity (node_at sample_env 11) = Some 42"
  "graph (node_at sample_env 20) = Some 7" "graph (node_at sample_env 21) = Some 7"
  "identity (node_at sample_env 20) = Some 0" "identity (node_at sample_env 21) = Some 0"
  "labels (node_at sample_env 10) = {}" "labels (node_at sample_env 11) = {''Person''}"
  "properties (node_at sample_env 10) ''name'' = None"
  "properties (node_at sample_env 11) ''name'' = Some ''Alice''"
  "stale (node_at sample_env 10) = {''labels'', ''properties''}"
  by (simp_all add: sample_simps)

lemma sample_rel_fields:
  "graph (rel_at sample_env 12) = None" "graph (rel_at sample_env 13) = None"
  "graph (rel_at sample_env 14) = None"
  "uuid (rel_at sample_env 12) = ''7c9e6679-7425-40de-944b-e07fcafabcde''"
  "uuid (rel_at sample_env 13) = ''0a1b2c3d-5555-4666-8777-88888bcdefa1''"
  "rel_type (rel_at sample_env 12) = Subclass ''KNOWS''" "rel_type (rel_at sample_env 13) = Subclass ''KNOWS''"
  "rel_type (rel_at sample_env 14) = Subclass ''KNOWS''"
  "start_n (rel_at sample_env 12) = 2" "start_n (rel_at sample_env 13) = 2" "start_n (rel_at sample_env 14) = 3"
  "end_n (rel_at sample_env 12) = 3" "end_n (rel_at sample_env 13) = 3" "end_n (rel_at sample_env 14) = 4"
  "properties (rel_at sample_env 12) = Map.empty" "properties (rel_at sample_env 13) = Map.empty"
  "properties (rel_at sample_env 14) = Map.empty"
  by (simp_all add: sample_simps)

lemma sample_Node_eq:
  "\<not> Node_eq sample_env 3 4" "\<not> Node_eq sample_env 3 2" "\<not> Node_eq sample_env 2 4"
  "\<not> Node_eq sample_env 2 3" "\<not> Node_eq sample_env 4 3" "\<not> Node_eq sample_env 4 2"
  by (simp_all add: Node_eq_def sample_node_fields)

section \<open>The closure invariant of Subgraph\<close>

text \<open>
  Claim C1. The constructor and each of the four operators \<open>|\<close>, \<open>&\<close>, \<open>-\<close> and \<open>^\<close> either
  fail with the \<open>ValueError\<close> of the empty node set, and do so exactly when the node set
  after closure is empty, or return a subgraph whose node set is not empty and holds both
  endpoints of every relationship of its relationship set.
\<close>

theorem Subgraph_invariant:
  "Subgraph_ok E (ns, rs) (Subgraph E ns rs)
   \<and> Subgraph_ok E (or_args E a b) (Subgraph_or E a b)
   \<and> Subgraph_ok E (and_args E a b) (Subgraph_and E a b)
   \<and> Subgraph_ok E (sub_args E a b) (Subgraph_sub E a b)
   \<and> Subgraph_ok E (xor_args E a b) (Subgraph_xor E a b)"
  using Subgraph_meets_ok [of E "fst (or_args E a b)" "snd (or_args E a b)"]
    Subgraph_meets_ok [of E "fst (and_args E a b)" "snd (and_args E a b)"]
    Subgraph_meets_ok [of E "fst (sub_args E a b)" "snd (sub_args E a b)"]
    Subgraph_meets_ok [of E "fst (xor_args E a b)" "snd (xor_args E a b)"]
  by (simp add: Subgraph_meets_ok Subgraph_or_def Subgraph_and_def Subgraph_sub_def Subgraph_xor_def split_beta)

text \<open>
  A subgraph built from one relationship and no nodes gets the two endpoints; the
  intersection of two single, different nodes fails.
\<close>

theorem Subgraph_invariant_witness:
  "Subgraph_ok sample_env ([], [R 12]) (Inr \<lparr>s_nodes = [N 2, N 3], s_relationships = [R 12]\<rparr>)
   \<and> Subgraph_ok sample_env
         (and_args sample_env (Plain \<lparr>s_nodes = [N 2], s_relationships = []\<rparr>) (Plain \<lparr>s_nodes = [N 3], s_relationships = []\<rparr>))
         (Inl ValueError_no_nodes)"
  using Subgraph_invariant [of sample_env "[]" "[R 12]"
      "Plain \<lparr>s_nodes = [N 2], s_relationships = []\<rparr>" "Plain \<lparr>s_nodes = [N 3], s_relationships = []\<rparr>"]
  by (simp add: sample_Subgraph_rel sample_and)

section \<open>The difference of a subgraph with itself\<close>

lemma sub_args_self: "sub_args E A A = ([], [])"
  by (simp add: sub_args_def py_difference_self same_refl py_union_def)

lemma Subgraph_sub_self: "Subgraph_sub E A A = Inl ValueError_no_nodes"
  by (simp add: Subgraph_sub_def sub_args_self Subgraph_def closed_nodes_def py_union_def py_set_def)

text \<open>
  Claim C6, as the code has it. For every graph structure \<open>A\<close>, the difference \<open>A - A\<close> has
  no relationship and no node left, so it always fails construction with the \<open>ValueError\<close>
  of the empty node set, whatever \<open>A\<close> holds.
\<close>

theorem difference_with_itself_fails:
  "sub_args E A A = ([], []) \<and> Subgraph_sub E A A = Inl ValueError_no_nodes"
  by (simp add: sub_args_self Subgraph_sub_self)

text \<open>
  The claim as stated lets \<open>A - A\<close> succeed unless \<open>A\<close> is one node without relationships.
  A subgraph of two nodes and no relationship is built without error, and its difference
  with itself fails.
\<close>

theorem difference_with_itself_counterexample:
  "Subgraph sample_env [N 2, N 3] [] = Inr \<lparr>s_nodes = [N 2, N 3], s_relationships = []\<rparr>
   \<and> graph_order \<lparr>s_nodes = [N 2, N 3], s_relationships = []\<rparr> = 2
   \<and> graph_size \<lparr>s_nodes = [N 2, N 3], s_relationships = []\<rparr> = 0
   \<and> Subgraph_sub sample_env (Plain \<lparr>s_nodes = [N 2, N 3], s_relationships = []\<rparr>)
        (Plain \<lparr>s_nodes = [N 2, N 3], s_relationships = []\<rparr>) = Inl ValueError_no_nodes"
  by (simp add: sample_Subgraph_two Subgraph_sub_self graph_order_def graph_size_def)

section \<open>Equality of nodes\<close>

lemma Node_eq_unbound: "unbound (node_at E a) \<or> unbound (node_at E b) \<Longrightarrow> Node_eq E a b \<longleftrightarrow> a = b"
  unfolding Node_eq_def unbound_def by (cases "a = b") auto

lemma Node_eq_bound:
  "graph (node_at E a) = Some g \<Longrightarrow> graph (node_at E b) = Some g \<Longrightarrow>
   identity (node_at E a) = Some i \<Longrightarrow> identity (node_at E b) = Some i \<Longrightarrow> Node_eq E a b"
  by (simp add: Node_eq_def)

text \<open>
  Claim C3. When either of two nodes is unbound, they are equal exactly when they are the
  same object. Two nodes that are both bound, to equal graphs with equal identities, are
  equal whatever objects they are and whatever their labels and properties are.
\<close>

theorem Node_equality:
  "(unbound (node_at E a) \<or> unbound (node_at E b) \<longrightarrow> (Node_eq E a b \<longleftrightarrow> a = b))
   \<and> (graph (node_at E a) = Some g \<and> graph (node_at E b) = Some g
        \<and> identity (node_at E a) = Some i \<and> identity (node_at E b) = Some i \<longrightarrow> Node_eq E a b)"
  using Node_eq_unbound [of E a b] Node_eq_bound [of E a g b i] by blast


text \<open>
  Two unbound node objects are unequal and each equals itself; nodes \<open>10\<close> and \<open>11\<close> are
  different objects with different labels and properties, and equal.
\<close>

theorem Node_equality_witness:
  "unbound (node_at sample_env 2) \<and> \<not> Node_eq sample_env 2 3 \<and> Node_eq sample_env 2 2
   \<and> graph (node_at sample_env 10) = Some 7 \<and> graph (node_at sample_env 11) = Some 7
   \<and> identity (node_at sample_env 10) = Some 42 \<and> identity (node_at sample_env 11) = Some 42
   \<and> labels (node_at sample_env 10) \<noteq> labels (node_at sample_env 11)
   \<and> properties (node_at sample_env 10) ''name'' \<noteq> properties (node_at sample_env 11) ''name''
   \<and> Node_eq sample_env 10 11"
  using Node_equality [of sample_env 2 3 7 42] Node_equality [of sample_env 2 2 7 42]
    Node_equality [of sample_env 10 11 7 42]
  by (simp add: unbound_def sample_node_fields)



section \<open>The token, the binding and the hash\<close>

lemma Relationship_eq_unbound:
  assumes "unbound (rel_at E r) \<or> unbound (rel_at E s)"
  shows "Relationship_eq E r s \<longleftrightarrow>
       r = s \<or> (rel_type (rel_at E r) = rel_type (rel_at E s)
               \<and> Node_eq E (start_n (rel_at E r)) (start_n (rel_at E s))
               \<and> Node_eq E (end_n (rel_at E r)) (end_n (rel_at E s))
               \<and> properties (rel_at E r) = properties (rel_at E s))"
proof (cases "r = s")
  case True
  then show ?thesis by (simp add: Relationship_eq_def)
next
  case False
  have "graph (rel_at E r) = None \<or> graph (rel_at E s) = None
      \<or> identity (rel_at E r) = None \<or> identity (rel_at E s) = None"
    using assms unfolding unbound_def by (elim disjE; simp)
  then show ?thesis using False by (simp only: Relationship_eq_def if_True if_False simp_thms)
qed


lemma rel_at_update: "rel_at (E\<lparr>rel_at := f\<rparr>) = f" "node_at (E\<lparr>rel_at := f\<rparr>) = node_at E"
  "hash_int (E\<lparr>rel_at := f\<rparr>) = hash_int E" "hash_tuple (E\<lparr>rel_at := f\<rparr>) = hash_tuple E"
  "hash_class (E\<lparr>rel_at := f\<rparr>) = hash_class E" "hash_database (E\<lparr>rel_at := f\<rparr>) = hash_database E"
  "hash_name (E\<lparr>rel_at := f\<rparr>) = hash_name E" "graph_bool (E\<lparr>rel_at := f\<rparr>) = graph_bool E"
  by simp_all






lemma Node_hash_rel_update: "Node_hash (E\<lparr>rel_at := f\<rparr>) a = Node_hash E a"
  unfolding Node_hash_def by (simp only: rel_at_update)



lemma rel_binding_fields:
  "rel_type (((rel_at E)(c := (rel_at E c)\<lparr>graph := g, identity := i\<rparr>)) a) = rel_type (rel_at E a)"
  "start_n (((rel_at E)(c := (rel_at E c)\<lparr>graph := g, identity := i\<rparr>)) a) = start_n (rel_at E a)"
  "end_n (((rel_at E)(c := (rel_at E c)\<lparr>graph := g, identity := i\<rparr>)) a) = end_n (rel_at E a)"
  by (cases "a = c"; simp)+

lemma Relationship_hash_ignores_binding:
  "Relationship_hash (E\<lparr>rel_at := (rel_at E)(c := (rel_at E c)\<lparr>graph := g, identity := i\<rparr>)\<rparr>) r
   = Relationship_hash E r"
  unfolding Relationship_hash_def by (simp only: rel_at_update rel_binding_fields Node_hash_rel_update)





text \<open>
  Claim C10. The hash of a relationship is the hash of the tuple of its endpoints combined
  by exclusive or with the hash of its class, and the relationship's own graph and identity
  have no part in it (\<open>Relationship_hash_ignores_binding\<close>). The hash of a bound node is
  meant to come from its graph and identity, but \<open>Node.__hash__\<close> tests the truth of the
  identity where \<open>Node.__eq__\<close> tests it against \<open>None\<close>: nodes \<open>20\<close> and \<open>21\<close>, two objects
  bound to one graph with identity \<open>0\<close>, are equal and still hash by their object ids, to
  different values.
\<close>

theorem Node_hash_identity_zero:
  "graph (node_at sample_env 20) = Some 7 \<and> identity (node_at sample_env 20) = Some 0
   \<and> graph (node_at sample_env 21) = Some 7 \<and> identity (node_at sample_env 21) = Some 0
   \<and> Node_eq sample_env 20 21
   \<and> Node_hash sample_env 20 = hash_int sample_env 20
   \<and> Node_hash sample_env 21 = hash_int sample_env 21
   \<and> Node_hash sample_env 20 \<noteq> Node_hash sample_env 21"
  by (simp add: Node_eq_def Node_hash_def sample_node_fields) (simp add: sample_env_def)


section \<open>walk and the equality of walkables\<close>

lemma ebind_simps [simp]: "ebind (Inr x) f = f x" "ebind (Inl e) f = Inl e"
  by (simp_all add: ebind_def)

lemma ebind_assoc: "ebind (ebind m f) g = ebind m (\<lambda>x. ebind (f x) g)"
  by (cases m) simp_all

lemma evens_Nil_iff: "evens xs = [] \<longleftrightarrow> xs = []"
  by (cases xs rule: evens.cases) simp_all

lemma closed_nodes_Nil_iff: "closed_nodes E ns rs = [] \<longleftrightarrow> ns = [] \<and> rs = []"
proof -
  have "concat (map (item_nodes E) ys) = [] \<longleftrightarrow> ys = []" for ys
    by (cases ys; cases "hd ys") (simp_all add: item_nodes_def)
  then show ?thesis
    by (simp add: closed_nodes_def py_union_Nil_iff py_set_Nil_iff)
qed

lemma Walkable_nonempty: "xs \<noteq> [] \<Longrightarrow> Walkable E xs = Inr (walkable_of E xs)"
  by (simp add: Walkable_def Subgraph_def closed_nodes_Nil_iff evens_Nil_iff walkable_of_def)

lemma Walkable_empty: "Walkable E [] = Inl ValueError_no_nodes"
  by (simp add: Walkable_def Subgraph_def closed_nodes_Nil_iff)

lemma Walkable_Inr: "Walkable E xs = Inr w \<Longrightarrow> xs \<noteq> [] \<and> w = walkable_of E xs"
  by (cases "xs = []") (simp_all add: Walkable_empty Walkable_nonempty)

lemma sequence_walkable_of [simp]: "sequence (walkable_of E xs) = xs"
  by (simp add: walkable_of_def)

lemma start_node_nonempty: "sequence w \<noteq> [] \<Longrightarrow> start_node w = Inr (hd (sequence w))"
  by (cases "sequence w") (simp_all add: start_node_def py_index_def)

lemma end_node_nonempty: "sequence w \<noteq> [] \<Longrightarrow> end_node w = Inr (last (sequence w))"
proof -
  assume ne: "sequence w \<noteq> []"
  then have "nat (- 1 + int (length (sequence w))) = length (sequence w) - 1"
    by (cases "sequence w") simp_all
  then show ?thesis using ne
    by (simp add: end_node_def py_index_def last_conv_nth)
qed

lemma filter_enumerate_Suc:
  "filter (\<lambda>(i, entity). i > 0) (enumerate (Suc n) xs) = enumerate (Suc n) xs"
  by (induction xs arbitrary: n) simp_all

lemma skip_first_tl: "skip_first xs = tl xs"
proof (cases xs)
  case Nil
  then show ?thesis by (simp add: skip_first_def)
next
  case (Cons x ys)
  have "skip_first (x # ys) = map snd (filter (\<lambda>(i, entity). i > 0) (enumerate (Suc 0) ys))"
    by (simp add: skip_first_def)
  also have "\<dots> = map snd (enumerate (Suc 0) ys)"
    by (simp only: filter_enumerate_Suc)
  also have "\<dots> = ys"
    by (rule map_snd_enumerate)
  finally show ?thesis using Cons by simp
qed

lemma walk_single: "sequence w \<noteq> [] \<Longrightarrow> walk E [w] = Inr (sequence w)"
  by (simp add: walk_def end_node_nonempty)


lemma Walkable_eq_single:
  "sequence u \<noteq> [] \<Longrightarrow> sequence v \<noteq> [] \<Longrightarrow> Walkable_eq E u v = Inr (tuple_eq E (sequence u) (sequence v))"
  by (simp add: Walkable_eq_def walk_single)




lemma walk_loop_spec:
  assumes "\<forall>w\<in>set ws. sequence w \<noteq> []"
  shows "ebind (walk_loop E e ws) (\<lambda>ys. Inr (out @ ys)) = ebind (spec_steps E (out, e) ws) (\<lambda>st. Inr (fst st))"
  using assms
proof (induction ws arbitrary: out e)
  case Nil
  then show ?case by simp
next
  case (Cons w ws)
  have ne: "sequence w \<noteq> []" and rest: "\<forall>w\<in>set ws. sequence w \<noteq> []"
    using Cons.prems by simp_all
  note IH = Cons.IH [OF rest]
  show ?case
  proof (cases "item_eq E e (hd (sequence w))")
    case True
    have "ebind (walk_loop E e (w # ws)) (\<lambda>ys. Inr (out @ ys))
        = ebind (walk_loop E (last (sequence w)) ws) (\<lambda>ys. Inr ((out @ tl (sequence w)) @ ys))"
      using True ne by (simp add: start_node_nonempty end_node_nonempty skip_first_tl ebind_assoc)
    also have "\<dots> = ebind (spec_steps E (out @ tl (sequence w), last (sequence w)) ws) (\<lambda>st. Inr (fst st))"
      by (rule IH)
    also have "\<dots> = ebind (spec_steps E (out, e) (w # ws)) (\<lambda>st. Inr (fst st))"
      using True by (simp add: spec_step_def)
    finally show ?thesis .
  next
    case False
    show ?thesis
    proof (cases "item_eq E e (last (sequence w))")
      case True
      have "ebind (walk_loop E e (w # ws)) (\<lambda>ys. Inr (out @ ys))
          = ebind (walk_loop E (hd (sequence w)) ws) (\<lambda>ys. Inr ((out @ tl (rev (sequence w))) @ ys))"
        using True False ne by (simp add: start_node_nonempty end_node_nonempty skip_first_tl ebind_assoc)
      also have "\<dots> = ebind (spec_steps E (out @ tl (rev (sequence w)), hd (sequence w)) ws) (\<lambda>st. Inr (fst st))"
        by (rule IH)
      also have "\<dots> = ebind (spec_steps E (out, e) (w # ws)) (\<lambda>st. Inr (fst st))"
        using True False by (simp add: spec_step_def)
      finally show ?thesis .
    next
      case no: False
      show ?thesis
        using no False ne by (simp add: start_node_nonempty end_node_nonempty spec_step_def)
    qed
  qed
qed

text \<open>
  Claim C2. For every non-empty list of walkables, \<open>walk\<close> yields what the specification
  describes: the first walkable's whole sequence, then for each further walkable its
  sequence forward when the running end equals its start node, reversed when the running
  end equals its end node, in both cases without its first element, and the
  \<open>ValueError\<close> "Cannot append walkable" otherwise. (A walkable never has an empty
  sequence: the constructor raises on one.)
\<close>

theorem walk_refines_spec:
  assumes "ws \<noteq> []" and "\<forall>w\<in>set ws. sequence w \<noteq> []"
  shows "walk E ws = spec_walk E ws"
proof -
  obtain w rest where ws: "ws = w # rest"
    using assms(1) by (cases ws) auto
  have ne: "sequence w \<noteq> []" and rest: "\<forall>w\<in>set rest. sequence w \<noteq> []"
    using assms(2) ws by simp_all
  have "walk E ws = ebind (walk_loop E (last (sequence w)) rest) (\<lambda>out. Inr (sequence w @ out))"
    using ne by (simp add: ws walk_def end_node_nonempty)
  also have "\<dots> = ebind (spec_steps E (sequence w, last (sequence w)) rest) (\<lambda>st. Inr (fst st))"
    using rest by (rule walk_loop_spec)
  also have "\<dots> = spec_walk E ws"
    by (simp add: spec_walk_def ws)
  finally show ?thesis .
qed

text \<open>
  A second walkable that attaches by its end node is reversed; a single node in front
  adds nothing; a walkable that shares no end with the running end fails.
\<close>

theorem walk_refines_spec_witness:
  "walk sample_env [walkable_of sample_env [N 2, R 12, N 3], walkable_of sample_env [N 4, R 14, N 3]]
     = Inr [N 2, R 12, N 3, R 14, N 4]
   \<and> walk sample_env [walkable_of sample_env [N 2], walkable_of sample_env [N 2, R 12, N 3],
        walkable_of sample_env [N 3, R 14, N 4]] = Inr [N 2, R 12, N 3, R 14, N 4]
   \<and> walk sample_env [walkable_of sample_env [N 2, R 12, N 3], walkable_of sample_env [N 4]]
     = Inl ValueError_cannot_append"
  using walk_refines_spec [of "[walkable_of sample_env [N 2, R 12, N 3], walkable_of sample_env [N 4, R 14, N 3]]" sample_env]
    walk_refines_spec [of "[walkable_of sample_env [N 2], walkable_of sample_env [N 2, R 12, N 3],
        walkable_of sample_env [N 3, R 14, N 4]]" sample_env]
    walk_refines_spec [of "[walkable_of sample_env [N 2, R 12, N 3], walkable_of sample_env [N 4]]" sample_env]
  by (simp add: spec_walk_def spec_step_def sample_Node_eq Node_eq_refl)


section \<open>Indexing and slicing a walkable\<close>

lemma odds_nth: "2 * j + 1 < length s \<Longrightarrow> odds s ! j = s ! (2 * j + 1)"
proof (induction s arbitrary: j rule: odds.induct)
  case (3 x y xs)
  then show ?case by (cases j) simp_all
qed simp_all

lemma length_odds: "length s = 2 * k + 1 \<Longrightarrow> length (odds s) = k"
proof (induction s arbitrary: k rule: odds.induct)
  case (3 x y xs)
  then show ?case by (cases k) simp_all
qed simp_all

lemma Walkable_len_odd: "length (sequence w) = 2 * k + 1 \<Longrightarrow> Walkable_len w = int k"
  by (simp add: Walkable_len_def)

lemma getitem_nonneg:
  assumes "length (sequence w) = 2 * k + 1" and "j < k"
  shows "Walkable_getitem E w (Index (int j)) = Inr (Entry (odds (sequence w) ! j))"
proof -
  have "2 * j + 1 < length (sequence w)" using assms by simp
  then have "odds (sequence w) ! j = sequence w ! (2 * j + 1)" by (rule odds_nth)
  moreover have "nat (2 * int j + 1) = 2 * j + 1" by simp
  ultimately show ?thesis using assms
    by (simp add: Walkable_getitem_def py_index_def)
qed

lemma getitem_negative:
  assumes "length (sequence w) = 2 * k + 1" and "1 \<le> j" and "j \<le> k"
  shows "Walkable_getitem E w (Index (- int j)) = Inr (Entry (odds (sequence w) ! (k - j)))"
proof -
  have lt: "2 * (k - j) + 1 < length (sequence w)" using assms by simp
  then have "odds (sequence w) ! (k - j) = sequence w ! (2 * (k - j) + 1)" by (rule odds_nth)
  moreover have "nat (2 * (- int j) + int (length (sequence w))) = 2 * (k - j) + 1"
    using assms by simp
  ultimately show ?thesis using assms
    by (simp add: Walkable_getitem_def py_index_def)
qed

lemma getitem_slice:
  assumes len: "length (sequence w) = 2 * k + 1"
    and a: "from_end (int k) a = int a'" and b: "from_end (int k) b = int b'"
    and ab: "a' \<le> b'" and bk: "b' \<le> k"
  shows "Walkable_getitem E w (Slice (Some a) (Some b))
         = Inr (Part (walkable_of E (take (2 * (b' - a') + 1) (drop (2 * a') (sequence w)))))"
proof -
  have L: "Walkable_len w = int k" using len by (rule Walkable_len_odd)
  have lo: "slice_bound (length (sequence w)) (2 * int a') = 2 * a'"
    using len ab bk by (simp add: slice_bound_def)
  have hi: "slice_bound (length (sequence w)) (2 * int b' + 1) = 2 * b' + 1"
    using len bk by (simp add: slice_bound_def nat_add_distrib nat_mult_distrib)
  have d: "2 * b' + 1 - 2 * a' = 2 * (b' - a') + 1"
    using ab by simp
  have sl: "py_slice (sequence w) (Some (2 * int a')) (Some (2 * int b' + 1))
          = take (2 * (b' - a') + 1) (drop (2 * a') (sequence w))"
    using d by (simp add: py_slice_def lo hi Let_def)
  have ne: "take (2 * (b' - a') + 1) (drop (2 * a') (sequence w)) \<noteq> []"
    using len ab bk by simp
  show ?thesis
    using ne by (simp add: Walkable_getitem_def L a b sl Walkable_nonempty)
qed


text \<open>
  Claim C7, as the code has it. Let the sequence of a walkable have length \<open>2k + 1\<close>, so
  that it has \<open>k\<close> relationships. An index \<open>j\<close> with \<open>0 \<le> j < k\<close> yields the \<open>j\<close>-th
  relationship. A negative index \<open>-j\<close> with \<open>1 \<le> j \<le> k\<close> yields the entry \<open>s[-2j]\<close>, which is
  the relationship \<open>k - j\<close>, the \<open>j\<close>-th from the end, not a node. A slice whose bounds,
  after \<open>len(w)\<close> is added to a negative one, are \<open>a' \<le> b' \<le> k\<close> yields a new walkable over
  \<open>s[2a' : 2b' + 1]\<close>.
\<close>

theorem Walkable_getitem_positions:
  assumes "length (sequence w) = 2 * k + 1"
  shows "(j < k \<longrightarrow> Walkable_getitem E w (Index (int j)) = Inr (Entry (odds (sequence w) ! j)))
     \<and> (1 \<le> j \<and> j \<le> k \<longrightarrow>
          Walkable_getitem E w (Index (- int j)) = Inr (Entry (odds (sequence w) ! (k - j))))
     \<and> (from_end (int k) a = int a' \<and> from_end (int k) b = int b' \<and> a' \<le> b' \<and> b' \<le> k \<longrightarrow>
          Walkable_getitem E w (Slice (Some a) (Some b))
          = Inr (Part (walkable_of E (take (2 * (b' - a') + 1) (drop (2 * a') (sequence w))))))"
  using getitem_nonneg [OF assms, of j E] getitem_negative [OF assms, of j E]
    getitem_slice [OF assms, of a a' b b' E]
  by simp

text \<open>
  On the walk of two relationships: \<open>w[1]\<close> and \<open>w[-1]\<close> are both the last relationship,
  and \<open>w[-1:2]\<close> is the walk over it.
\<close>

theorem Walkable_getitem_positions_witness:
  "Walkable_getitem sample_env (walkable_of sample_env [N 2, R 12, N 3, R 14, N 4]) (Index 1) = Inr (Entry (R 14))
   \<and> Walkable_getitem sample_env (walkable_of sample_env [N 2, R 12, N 3, R 14, N 4]) (Index (- 1)) = Inr (Entry (R 14))
   \<and> Walkable_getitem sample_env (walkable_of sample_env [N 2, R 12, N 3, R 14, N 4]) (Slice (Some (- 1)) (Some 2))
      = Inr (Part (walkable_of sample_env [N 3, R 14, N 4]))"
  using Walkable_getitem_positions [of "walkable_of sample_env [N 2, R 12, N 3, R 14, N 4]" 2 "Suc 0" sample_env "- 1" "Suc 0" 2 2]
  by (simp add: from_end_def)

text \<open>
  The claim as stated makes a negative index yield a node. On the walk of one
  relationship, \<open>w[-1]\<close> is the relationship.
\<close>

theorem Walkable_getitem_positions_counterexample:
  "Walkable sample_env [N 2, R 12, N 3] = Inr (walkable_of sample_env [N 2, R 12, N 3])
   \<and> Walkable_getitem sample_env (walkable_of sample_env [N 2, R 12, N 3]) (Index (- 1)) = Inr (Entry (R 12))
   \<and> \<not> is_node (R 12)"
  by (simp add: Walkable_nonempty Walkable_getitem_def py_index_def)


section \<open>Reading a stale node\<close>

lemma pull_if_stale_bound:
  assumes "graph (node_at (heap w) self) = Some g" and "identity (node_at (heap w) self) = Some i"
    and "flag \<in> stale (node_at (heap w) self)"
  shows "pull_if_stale pull flag self w = graph_pull pull g self w"
  using assms by (simp add: pull_if_stale_def)

lemma heap_graph_pull: "heap (graph_pull pull g self w) = pull g self (heap w)"
  and pulls_graph_pull: "pulls (graph_pull pull g self w) = pulls w @ [(g, self)]"
  by (simp_all add: graph_pull_def)

lemma stale_set_labels: "stale (node_at (heap (set_labels self f w)) self) = stale (node_at (heap w) self)"
  and labels_set_labels: "labels (node_at (heap (set_labels self f w)) self) = f (labels (node_at (heap w) self))"
  and pulls_set_labels: "pulls (set_labels self f w) = pulls w"
  by (simp_all add: set_labels_def)

text \<open>
  Claim C8, as the code has it. On a bound node whose labels are marked stale, every
  label read (\<open>labels\<close>, \<open>has_label\<close>) and every label mutation (\<open>add_label\<close>,
  \<open>remove_label\<close>, \<open>clear_labels\<close>, \<open>update_labels\<close>) first calls the \<open>pull\<close> of the node's
  graph on the node, and then returns the value or applies the mutation on the node as
  \<open>pull\<close> left it; a property read does the same when the properties are marked stale. The
  methods themselves never change the stale set: after the call it is what \<open>pull\<close> left.
\<close>

theorem stale_read_pulls_first:
  assumes "graph (node_at (heap w) self) = Some g" and "identity (node_at (heap w) self) = Some i"
  shows "(''labels'' \<in> stale (node_at (heap w) self) \<longrightarrow>
            Node_labels pull self w = (labels (node_at (pull g self (heap w)) self), graph_pull pull g self w)
          \<and> has_label pull self l w = (l \<in> labels (node_at (pull g self (heap w)) self), graph_pull pull g self w)
          \<and> add_label pull self l w = set_labels self (insert l) (graph_pull pull g self w)
          \<and> remove_label pull self l w = set_labels self (\<lambda>ls. ls - {l}) (graph_pull pull g self w)
          \<and> clear_labels pull self w = set_labels self (\<lambda>ls. {}) (graph_pull pull g self w)
          \<and> update_labels pull self ls w = set_labels self (\<lambda>old. old \<union> set ls) (graph_pull pull g self w)
          \<and> stale (node_at (heap (add_label pull self l w)) self) = stale (node_at (pull g self (heap w)) self)
          \<and> stale (node_at (heap (snd (has_label pull self l w))) self) = stale (node_at (pull g self (heap w)) self))
     \<and> (''properties'' \<in> stale (node_at (heap w) self) \<longrightarrow>
            Node_getitem pull self key w = (properties (node_at (pull g self (heap w)) self) key, graph_pull pull g self w)
          \<and> stale (node_at (heap (snd (Node_getitem pull self key w))) self) = stale (node_at (pull g self (heap w)) self))"
proof (intro conjI impI)
  assume st: "''labels'' \<in> stale (node_at (heap w) self)"
  have e: "ensure_labels pull self w = graph_pull pull g self w"
    unfolding ensure_labels_def using assms st by (rule pull_if_stale_bound)
  show "Node_labels pull self w = (labels (node_at (pull g self (heap w)) self), graph_pull pull g self w)"
    by (simp add: Node_labels_def e heap_graph_pull)
  show "has_label pull self l w = (l \<in> labels (node_at (pull g self (heap w)) self), graph_pull pull g self w)"
    by (simp add: has_label_def e heap_graph_pull)
  show "add_label pull self l w = set_labels self (insert l) (graph_pull pull g self w)"
    by (simp add: add_label_def e)
  show "remove_label pull self l w = set_labels self (\<lambda>ls. ls - {l}) (graph_pull pull g self w)"
    by (simp add: remove_label_def e)
  show "clear_labels pull self w = set_labels self (\<lambda>ls. {}) (graph_pull pull g self w)"
    by (simp add: clear_labels_def e)
  show "update_labels pull self ls w = set_labels self (\<lambda>old. old \<union> set ls) (graph_pull pull g self w)"
    by (simp add: update_labels_def e)
  show "stale (node_at (heap (add_label pull self l w)) self) = stale (node_at (pull g self (heap w)) self)"
    by (simp add: add_label_def e stale_set_labels heap_graph_pull)
  show "stale (node_at (heap (snd (has_label pull self l w))) self) = stale (node_at (pull g self (heap w)) self)"
    by (simp add: has_label_def e heap_graph_pull)
next
  assume st: "''properties'' \<in> stale (node_at (heap w) self)"
  have e: "pull_if_stale pull ''properties'' self w = graph_pull pull g self w"
    using assms st by (rule pull_if_stale_bound)
  show "Node_getitem pull self key w = (properties (node_at (pull g self (heap w)) self) key, graph_pull pull g self w)"
    by (simp add: Node_getitem_def e heap_graph_pull)
  show "stale (node_at (heap (snd (Node_getitem pull self key w))) self) = stale (node_at (pull g self (heap w)) self)"
    by (simp add: Node_getitem_def e heap_graph_pull)
qed


text \<open>
  With a \<open>pull\<close> that refreshes node \<open>10\<close>, the reads see the refreshed labels and
  properties, one call of \<open>pull\<close> is logged, and the stale set is empty afterwards.
\<close>

theorem stale_read_pulls_first_witness:
  "has_label refreshing_pull 10 ''Person'' \<lparr>heap = sample_env, pulls = []\<rparr>
     = (True, graph_pull refreshing_pull 7 10 \<lparr>heap = sample_env, pulls = []\<rparr>)
   \<and> pulls (graph_pull refreshing_pull 7 10 \<lparr>heap = sample_env, pulls = []\<rparr>) = [(7, 10)]
   \<and> Node_getitem refreshing_pull 10 ''name'' \<lparr>heap = sample_env, pulls = []\<rparr>
     = (Some ''Alice'', graph_pull refreshing_pull 7 10 \<lparr>heap = sample_env, pulls = []\<rparr>)
   \<and> stale (node_at (heap (add_label refreshing_pull 10 ''Actor'' \<lparr>heap = sample_env, pulls = []\<rparr>)) 10) = {}"
  using stale_read_pulls_first [of "\<lparr>heap = sample_env, pulls = []\<rparr>" 10 7 42 refreshing_pull
      "''Person''" "[]" "''name''"]
    stale_read_pulls_first [of "\<lparr>heap = sample_env, pulls = []\<rparr>" 10 7 42 refreshing_pull
      "''Actor''" "[]" "''name''"]
  by (simp add: sample_node_fields pulls_graph_pull stale_set_labels heap_graph_pull refreshing_pull_def)

text \<open>
  The claim as stated has the read clear the stale flag. With a \<open>pull\<close> that leaves the heap
  as it is, \<open>has_label\<close> calls it and returns with the flag still set.
\<close>

theorem stale_read_pulls_first_counterexample:
  "graph (node_at sample_env 10) = Some 7 \<and> identity (node_at sample_env 10) = Some 42
   \<and> ''labels'' \<in> stale (node_at sample_env 10)
   \<and> pulls (snd (has_label idle_pull 10 ''Person'' \<lparr>heap = sample_env, pulls = []\<rparr>)) = [(7, 10)]
   \<and> ''labels'' \<in> stale (node_at (heap (snd (has_label idle_pull 10 ''Person'' \<lparr>heap = sample_env, pulls = []\<rparr>))) 10)"
  by (simp add: has_label_def ensure_labels_def pull_if_stale_def graph_pull_def idle_pull_def sample_node_fields)


section \<open>Sets over the same members\<close>

lemma sorted_wrt_py_add:
  "sorted_wrt (\<lambda>y x. \<not> eq y x) s \<Longrightarrow> sorted_wrt (\<lambda>y x. \<not> eq y x) (py_add eq s x)"
  by (cases "py_in eq x s") (auto simp: py_add_old py_add_new py_in_iff sorted_wrt_append)

lemma sorted_wrt_foldl_py_add:
  "sorted_wrt (\<lambda>y x. \<not> eq y x) s \<Longrightarrow> sorted_wrt (\<lambda>y x. \<not> eq y x) (foldl (py_add eq) s xs)"
  by (induction xs arbitrary: s) (simp_all add: sorted_wrt_py_add)

lemma sorted_wrt_py_set: "sorted_wrt (\<lambda>y x. \<not> eq y x) (py_set eq xs)"
  by (simp add: py_set_def sorted_wrt_foldl_py_add)

lemma set_py_set: "set (py_set eq xs) \<subseteq> set xs"
  using set_foldl_py_add [of eq "[]" xs] by (simp add: py_set_def)

lemma py_set_members_apart:
  assumes refl: "\<And>x. eq x x"
    and sym: "\<And>x y. x \<in> set xs \<Longrightarrow> y \<in> set xs \<Longrightarrow> eq x y \<Longrightarrow> eq y x"
    and a: "a \<in> set (py_set eq xs)" and b: "b \<in> set (py_set eq xs)" and ab: "eq a b"
  shows "a = b"
proof -
  let ?A = "py_set eq xs"
  have sw: "sorted_wrt (\<lambda>y x. \<not> eq y x) ?A" by (rule sorted_wrt_py_set)
  obtain i where i: "i < length ?A" "?A ! i = a" using a by (auto simp: in_set_conv_nth)
  obtain j where j: "j < length ?A" "?A ! j = b" using b by (auto simp: in_set_conv_nth)
  have ba: "eq b a"
    using sym [of a b] a b ab set_py_set [of eq xs] by blast
  show ?thesis
  proof (rule ccontr)
    assume ne: "a \<noteq> b"
    then have "i \<noteq> j" using i j by auto
    then consider "i < j" | "j < i" by linarith
    then show False
    proof cases
      case 1
      then have "\<not> eq (?A ! i) (?A ! j)" using sw j(1) by (simp add: sorted_wrt_iff_nth_less)
      then show False using ab i j by simp
    next
      case 2
      then have "\<not> eq (?A ! j) (?A ! i)" using sw i(1) by (simp add: sorted_wrt_iff_nth_less)
      then show False using ba i j by simp
    qed
  qed
qed

lemma distinct_py_set:
  assumes refl: "\<And>x. eq x x"
  shows "distinct (py_set eq xs)"
proof -
  have "sorted_wrt (\<lambda>y x. \<not> eq y x) (py_set eq xs)" by (rule sorted_wrt_py_set)
  then have "sorted_wrt (\<lambda>y x. y \<noteq> x) (py_set eq xs)"
    by (rule sorted_wrt_mono_rel [rotated]) (use refl in auto)
  then show ?thesis by (simp add: distinct_conv_nth sorted_wrt_iff_nth_less) (metis nat_neq_iff)
qed

lemma length_py_set_classes:
  assumes refl: "\<And>x. eq x x"
    and sym: "\<And>x y. x \<in> set xs \<Longrightarrow> y \<in> set xs \<Longrightarrow> eq x y \<Longrightarrow> eq y x"
    and trans: "\<And>x y z. x \<in> set xs \<Longrightarrow> y \<in> set xs \<Longrightarrow> z \<in> set xs \<Longrightarrow> eq x y \<Longrightarrow> eq y z \<Longrightarrow> eq x z"
  shows "length (py_set eq xs) = card ((\<lambda>x. {y \<in> set xs. eq x y}) ` set xs)"
proof -
  let ?A = "py_set eq xs"
  let ?cls = "\<lambda>x. {y \<in> set xs. eq x y}"
  have sub: "set ?A \<subseteq> set xs" by (rule set_py_set)
  have inj: "inj_on ?cls (set ?A)"
  proof (rule inj_onI)
    fix a b assume a: "a \<in> set ?A" and b: "b \<in> set ?A" and eqc: "?cls a = ?cls b"
    have "b \<in> ?cls b" using b sub refl by auto
    then have "eq a b" using eqc by auto
    with a b show "a = b" using py_set_members_apart [of eq xs a b] refl sym by blast
  qed
  have img: "?cls ` set ?A = ?cls ` set xs"
  proof
    show "?cls ` set ?A \<subseteq> ?cls ` set xs" using sub by auto
    show "?cls ` set xs \<subseteq> ?cls ` set ?A"
    proof
      fix c assume "c \<in> ?cls ` set xs"
      then obtain x where x: "x \<in> set xs" and c: "c = ?cls x" by auto
      have "py_in eq x ?A" using x refl by (simp add: py_set_member)
      then obtain a where a: "a \<in> set ?A" and ax: "eq a x" by (auto simp: py_in_iff)
      have axs: "a \<in> set xs" using a sub by auto
      have xa: "eq x a" using sym [OF axs x ax] .
      have "?cls a = ?cls x"
      proof (intro set_eqI iffI)
        fix y assume "y \<in> ?cls a"
        then have y: "y \<in> set xs" and ay: "eq a y" by auto
        from trans [OF x axs y xa ay] y show "y \<in> ?cls x" by simp
      next
        fix y assume "y \<in> ?cls x"
        then have y: "y \<in> set xs" and xy: "eq x y" by auto
        from trans [OF axs x y ax xy] y show "y \<in> ?cls a" by simp
      qed
      then show "c \<in> ?cls ` set ?A" using a c by auto
    qed
  qed
  have "length ?A = card (set ?A)"
    using distinct_py_set [of eq xs] refl by (simp add: distinct_card)
  also have "\<dots> = card (?cls ` set ?A)"
    using inj by (simp add: card_image)
  finally show ?thesis using img by simp
qed

lemma py_set_eq_same_members:
  assumes refl: "\<And>x. eq x x"
    and sym: "\<And>x y. x \<in> set xs \<Longrightarrow> y \<in> set xs \<Longrightarrow> eq x y \<Longrightarrow> eq y x"
    and trans: "\<And>x y z. x \<in> set xs \<Longrightarrow> y \<in> set xs \<Longrightarrow> z \<in> set xs \<Longrightarrow> eq x y \<Longrightarrow> eq y z \<Longrightarrow> eq x z"
    and same: "set xs = set ys"
  shows "py_set_eq eq (py_set eq xs) (py_set eq ys)"
proof -
  have "length (py_set eq xs) = card ((\<lambda>x. {y \<in> set xs. eq x y}) ` set xs)"
    using refl sym trans by (rule length_py_set_classes)
  moreover have "length (py_set eq ys) = card ((\<lambda>x. {y \<in> set ys. eq x y}) ` set ys)"
  proof (rule length_py_set_classes)
    show "eq x x" for x by (rule refl)
    show "eq y x" if "x \<in> set ys" "y \<in> set ys" "eq x y" for x y
      using that sym same by simp
    show "eq x z" if "x \<in> set ys" "y \<in> set ys" "z \<in> set ys" "eq x y" "eq y z" for x y z
      using that trans [of x y z] same by simp
  qed
  ultimately have len: "length (py_set eq xs) = length (py_set eq ys)"
    using same by simp
  have "\<forall>x\<in>set (py_set eq xs). py_in eq x (py_set eq ys)"
  proof
    fix x assume "x \<in> set (py_set eq xs)"
    then have "x \<in> set ys" using set_py_set [of eq xs] same by auto
    then show "py_in eq x (py_set eq ys)" using refl by (simp add: py_set_member)
  qed
  then show ?thesis using len by (simp add: py_set_eq_def list_all_iff)
qed


section \<open>Order-sensitive and set-based equality\<close>

lemma Relationship_eq_sym: "Relationship_eq E r s \<Longrightarrow> Relationship_eq E s r"
proof (cases "r = s")
  case True
  then show ?thesis by (simp add: Relationship_eq_def)
next
  case False
  assume rs: "Relationship_eq E r s"
  show ?thesis
  proof (cases "unbound (rel_at E r) \<or> unbound (rel_at E s)")
    case True
    then have u: "unbound (rel_at E s) \<or> unbound (rel_at E r)" by (elim disjE; simp)
    from rs True False have
      "rel_type (rel_at E r) = rel_type (rel_at E s)
       \<and> Node_eq E (start_n (rel_at E r)) (start_n (rel_at E s))
       \<and> Node_eq E (end_n (rel_at E r)) (end_n (rel_at E s))
       \<and> properties (rel_at E r) = properties (rel_at E s)"
      by (simp add: Relationship_eq_unbound)
    then have
      "rel_type (rel_at E s) = rel_type (rel_at E r)
       \<and> Node_eq E (start_n (rel_at E s)) (start_n (rel_at E r))
       \<and> Node_eq E (end_n (rel_at E s)) (end_n (rel_at E r))
       \<and> properties (rel_at E s) = properties (rel_at E r)"
      by (simp add: Node_eq_sym)
    then show ?thesis using u by (simp add: Relationship_eq_unbound)
  next
    case bound: False
    then have c: "\<not> (graph (rel_at E r) = None \<or> graph (rel_at E s) = None
        \<or> identity (rel_at E r) = None \<or> identity (rel_at E s) = None)"
      and c': "\<not> (graph (rel_at E s) = None \<or> graph (rel_at E r) = None
        \<or> identity (rel_at E s) = None \<or> identity (rel_at E r) = None)"
      by (simp_all add: unbound_def)
    have ne: "s \<noteq> r" using False by simp
    have 1: "Relationship_eq E r s
        = (graph (rel_at E r) = graph (rel_at E s) \<and> identity (rel_at E r) = identity (rel_at E s))"
      unfolding Relationship_eq_def by (simp only: False c if_False)
    have 2: "Relationship_eq E s r
        = (graph (rel_at E s) = graph (rel_at E r) \<and> identity (rel_at E s) = identity (rel_at E r))"
      unfolding Relationship_eq_def by (simp only: ne c' if_False)
    show ?thesis using rs unfolding 1 2 by simp
  qed
qed

lemma item_eq_sym: "item_eq E x y \<Longrightarrow> item_eq E y x"
  by (cases x; cases y) (simp_all add: Node_eq_sym Relationship_eq_sym)

lemma same_sym: "same E x y \<Longrightarrow> same E y x"
  by (simp add: same_def item_eq_sym)

lemma set_evens_odds: "set xs = set (evens xs) \<union> set (odds xs)"
  by (induction xs rule: evens.induct) auto

lemma closed_nodes_py_set:
  "closed_nodes E ns rs
   = py_set (same E) (ns @ py_set (same E) (concat (map (item_nodes E) (py_set (same E) rs))))"
  by (simp add: closed_nodes_def py_union_def py_set_def)

lemma closed_nodes_members:
  assumes "\<forall>r\<in>set rs. set (item_nodes E r) \<subseteq> set ns"
  shows "set (ns @ py_set (same E) (concat (map (item_nodes E) (py_set (same E) rs)))) = set ns"
proof -
  have "set (py_set (same E) (concat (map (item_nodes E) (py_set (same E) rs))))
        \<subseteq> set (concat (map (item_nodes E) (py_set (same E) rs)))"
    by (rule set_py_set)
  also have "\<dots> \<subseteq> set ns"
    using assms set_py_set [of "same E" rs] by auto
  finally show ?thesis by auto
qed

lemma subgraph_view_walkable_of:
  "subgraph_view (walkable_of E xs)
   = \<lparr>s_nodes = closed_nodes E (evens xs) (odds xs), s_relationships = py_set (same E) (odds xs)\<rparr>"
  by (simp add: subgraph_view_def walkable_of_def)

lemma py_set_eq_length: "py_set_eq eq a b \<Longrightarrow> length a = length b"
  by (simp add: py_set_eq_def)

lemma Subgraph_eq_views:
  assumes nodes: "set (evens su) = set (evens sv)" and rels: "set (odds su) = set (odds sv)"
    and ends: "\<forall>r\<in>set (odds su). set (item_nodes E r) \<subseteq> set (evens su)"
    and trans: "transitive_on E (set su)"
  shows "Subgraph_eq E (subgraph_view (walkable_of E su)) (subgraph_view (walkable_of E sv))"
proof -
  let ?Lu = "evens su @ py_set (same E) (concat (map (item_nodes E) (py_set (same E) (odds su))))"
  let ?Lv = "evens sv @ py_set (same E) (concat (map (item_nodes E) (py_set (same E) (odds sv))))"
  have tr: "same E x z" if "x \<in> set su" "y \<in> set su" "z \<in> set su" "same E x y" "same E y z" for x y z
    using trans that unfolding transitive_on_def by blast
  have ev: "set (evens su) \<subseteq> set su" and od: "set (odds su) \<subseteq> set su"
    using set_evens_odds [of su] by auto
  have Lu: "set ?Lu = set (evens su)"
    using ends by (rule closed_nodes_members)
  have ends_v: "\<forall>r\<in>set (odds sv). set (item_nodes E r) \<subseteq> set (evens sv)"
    using ends nodes rels by simp
  have Lv: "set ?Lv = set (evens sv)"
    using ends_v by (rule closed_nodes_members)
  have n: "py_set_eq (same E) (py_set (same E) ?Lu) (py_set (same E) ?Lv)"
  proof (rule py_set_eq_same_members)
    show "same E x x" for x by (rule same_refl)
    show "same E y x" if "same E x y" for x y using that by (rule same_sym)
    show "same E x z" if "x \<in> set ?Lu" "y \<in> set ?Lu" "z \<in> set ?Lu" "same E x y" "same E y z" for x y z
      using that tr [of x y z] ev unfolding Lu by blast
    show "set ?Lu = set ?Lv" using Lu Lv nodes by simp
  qed
  have r: "py_set_eq (same E) (py_set (same E) (odds su)) (py_set (same E) (odds sv))"
  proof (rule py_set_eq_same_members)
    show "same E x x" for x by (rule same_refl)
    show "same E y x" if "same E x y" for x y using that by (rule same_sym)
    show "same E x z" if "x \<in> set (odds su)" "y \<in> set (odds su)" "z \<in> set (odds su)"
      "same E x y" "same E y z" for x y z
      using that tr [of x y z] od by blast
    show "set (odds su) = set (odds sv)" by (rule rels)
  qed
  show ?thesis
    using n r py_set_eq_length [OF n] py_set_eq_length [OF r]
    by (simp add: Subgraph_eq_def subgraph_view_walkable_of closed_nodes_py_set graph_order_def graph_size_def)
qed

lemma transitive_on_discrete:
  assumes "\<forall>x\<in>S. \<forall>y\<in>S. same E x y \<longrightarrow> x = y"
  shows "transitive_on E S"
  unfolding transitive_on_def using assms by blast

lemma sample_loop_fields:
  "graph (rel_at sample_env 15) = Some 7" "graph (rel_at sample_env 16) = None"
  "graph (rel_at sample_env 17) = Some 7"
  "identity (rel_at sample_env 15) = Some 5" "identity (rel_at sample_env 16) = None"
  "identity (rel_at sample_env 17) = Some 6"
  "rel_type (rel_at sample_env 15) = Subclass ''KNOWS''" "rel_type (rel_at sample_env 16) = Subclass ''KNOWS''"
  "rel_type (rel_at sample_env 17) = Subclass ''KNOWS''"
  "start_n (rel_at sample_env 15) = 2" "start_n (rel_at sample_env 16) = 2" "start_n (rel_at sample_env 17) = 2"
  "end_n (rel_at sample_env 15) = 2" "end_n (rel_at sample_env 16) = 2" "end_n (rel_at sample_env 17) = 2"
  "properties (rel_at sample_env 15) = Map.empty" "properties (rel_at sample_env 16) = Map.empty"
  "properties (rel_at sample_env 17) = Map.empty"
  by (simp_all add: sample_simps)

lemma sample_walk_Relationship_eq:
  "\<not> Relationship_eq sample_env 12 14" "\<not> Relationship_eq sample_env 14 12"
  by (simp_all add: Relationship_eq_def sample_rel_fields sample_Node_eq)

lemma sample_loops_Relationship_eq:
  "Relationship_eq sample_env 16 15" "Relationship_eq sample_env 16 17"
  "Relationship_eq sample_env 15 16" "Relationship_eq sample_env 17 16"
  "\<not> Relationship_eq sample_env 15 17" "\<not> Relationship_eq sample_env 17 15"
  by (simp_all add: Relationship_eq_def sample_loop_fields Node_eq_refl)

lemma sample_loops_hash:
  "Relationship_hash sample_env 15 = Relationship_hash sample_env 16"
  "Relationship_hash sample_env 17 = Relationship_hash sample_env 16"
  by (simp_all add: Relationship_hash_def sample_loop_fields)

lemma sample_walk_transitive: "transitive_on sample_env (set [N 2, R 12, N 3, R 14, N 4])"
  by (rule transitive_on_discrete)
    (simp add: same_def sample_Node_eq sample_walk_Relationship_eq)

lemma sample_loops_sets:
  "py_set (same sample_env) [R 16, R 15, R 17] = [R 16]"
  "py_set (same sample_env) [R 15, R 17, R 16] = [R 15, R 17]"
  by (simp_all add: py_set_def py_add_def py_in_def same_def sample_loops_Relationship_eq sample_loops_hash)

text \<open>
  Claim C4, as the code has it. Let \<open>u\<close> and \<open>v\<close> be walkables over the same node objects
  and the same relationship objects, in which the endpoints of every relationship are
  among the nodes, and on whose entities equality is transitive. If their sequences are
  unequal as tuples (a different traversal order), then \<open>u\<close> and \<open>v\<close> are unequal under
  \<open>Walkable.__eq__\<close>, and their subgraph views, the node set and the relationship set that
  \<open>Subgraph.__init__\<close> gave them, are equal under \<open>Subgraph.__eq__\<close>.
\<close>

theorem order_sensitive_and_set_based:
  assumes "Walkable E su = Inr u" and "Walkable E sv = Inr v"
    and "set (evens su) = set (evens sv)" and "set (odds su) = set (odds sv)"
    and "\<forall>r\<in>set (odds su). set (item_nodes E r) \<subseteq> set (evens su)"
    and "transitive_on E (set su)"
    and "\<not> tuple_eq E su sv"
  shows "Walkable_eq E u v = Inr False \<and> Subgraph_eq E (subgraph_view u) (subgraph_view v)"
proof -
  have u: "su \<noteq> []" "u = walkable_of E su" and v: "sv \<noteq> []" "v = walkable_of E sv"
    using assms(1,2) Walkable_Inr by blast+
  have "Walkable_eq E u v = Inr (tuple_eq E su sv)"
    using u v by (simp add: Walkable_eq_single)
  moreover have "Subgraph_eq E (subgraph_view u) (subgraph_view v)"
    unfolding u v using assms(3-6) by (rule Subgraph_eq_views)
  ultimately show ?thesis using assms(7) by simp
qed


text \<open>The walk from node \<open>2\<close> over node \<open>3\<close> to node \<open>4\<close>, and its reverse.\<close>

theorem order_sensitive_and_set_based_witness:
  "Walkable_eq sample_env (walkable_of sample_env [N 2, R 12, N 3, R 14, N 4])
      (walkable_of sample_env [N 4, R 14, N 3, R 12, N 2]) = Inr False
   \<and> Subgraph_eq sample_env (subgraph_view (walkable_of sample_env [N 2, R 12, N 3, R 14, N 4]))
        (subgraph_view (walkable_of sample_env [N 4, R 14, N 3, R 12, N 2]))"
proof -
  have 1: "Walkable sample_env [N 2, R 12, N 3, R 14, N 4] = Inr (walkable_of sample_env [N 2, R 12, N 3, R 14, N 4])"
    and 2: "Walkable sample_env [N 4, R 14, N 3, R 12, N 2] = Inr (walkable_of sample_env [N 4, R 14, N 3, R 12, N 2])"
    by (simp_all add: Walkable_nonempty)
  have 3: "set (evens [N 2, R 12, N 3, R 14, N 4]) = set (evens [N 4, R 14, N 3, R 12, N 2])"
    and 4: "set (odds [N 2, R 12, N 3, R 14, N 4]) = set (odds [N 4, R 14, N 3, R 12, N 2])"
    by auto
  have 5: "\<forall>r\<in>set (odds [N 2, R 12, N 3, R 14, N 4]).
      set (item_nodes sample_env r) \<subseteq> set (evens [N 2, R 12, N 3, R 14, N 4])"
    by (simp add: item_nodes_def sample_rel_fields)
  have 7: "\<not> tuple_eq sample_env [N 2, R 12, N 3, R 14, N 4] [N 4, R 14, N 3, R 12, N 2]"
    by (simp add: tuple_eq_def sample_Node_eq)
  show ?thesis
    using order_sensitive_and_set_based [OF 1 2 3 4 5 sample_walk_transitive 7] .
qed

text \<open>
  The claim as stated has the views equal for all walkables over the same nodes and
  relationships. Relationship \<open>16\<close> is unbound and equals the bound relationships \<open>15\<close> and
  \<open>17\<close> of its shape, which are unequal to each other. The walk over \<open>16\<close>, \<open>15\<close>, \<open>17\<close> keeps one
  relationship in its set, the walk over \<open>15\<close>, \<open>17\<close>, \<open>16\<close> keeps two: the walks are unequal
  and so are their views.
\<close>

theorem order_sensitive_and_set_based_counterexample:
  "Walkable sample_env [N 2, R 16, N 2, R 15, N 2, R 17, N 2]
      = Inr (walkable_of sample_env [N 2, R 16, N 2, R 15, N 2, R 17, N 2])
   \<and> Walkable sample_env [N 2, R 15, N 2, R 17, N 2, R 16, N 2]
      = Inr (walkable_of sample_env [N 2, R 15, N 2, R 17, N 2, R 16, N 2])
   \<and> set (evens [N 2, R 16, N 2, R 15, N 2, R 17, N 2]) = set (evens [N 2, R 15, N 2, R 17, N 2, R 16, N 2])
   \<and> set (odds [N 2, R 16, N 2, R 15, N 2, R 17, N 2]) = set (odds [N 2, R 15, N 2, R 17, N 2, R 16, N 2])
   \<and> Walkable_eq sample_env (walkable_of sample_env [N 2, R 16, N 2, R 15, N 2, R 17, N 2])
        (walkable_of sample_env [N 2, R 15, N 2, R 17, N 2, R 16, N 2]) = Inr False
   \<and> \<not> Subgraph_eq sample_env (subgraph_view (walkable_of sample_env [N 2, R 16, N 2, R 15, N 2, R 17, N 2]))
        (subgraph_view (walkable_of sample_env [N 2, R 15, N 2, R 17, N 2, R 16, N 2]))"
proof -
  have "set (odds [N 2, R 16, N 2, R 15, N 2, R 17, N 2]) = set (odds [N 2, R 15, N 2, R 17, N 2, R 16, N 2])"
    by auto
  moreover have "Walkable_eq sample_env (walkable_of sample_env [N 2, R 16, N 2, R 15, N 2, R 17, N 2])
        (walkable_of sample_env [N 2, R 15, N 2, R 17, N 2, R 16, N 2]) = Inr False"
    by (simp add: Walkable_eq_single tuple_eq_def sample_loops_Relationship_eq)
  moreover have "\<not> Subgraph_eq sample_env (subgraph_view (walkable_of sample_env [N 2, R 16, N 2, R 15, N 2, R 17, N 2]))
        (subgraph_view (walkable_of sample_env [N 2, R 15, N 2, R 17, N 2, R 16, N 2]))"
    by (simp add: Subgraph_eq_def subgraph_view_walkable_of graph_size_def sample_loops_sets)
  ultimately show ?thesis
    by (simp add: Walkable_nonempty)
qed


end
